theory Spec2Isabelle
  imports Main
begin

text \<open>
  The command dispatcher of kook-ts-cordis: the tokenizer and the class
  \<open>CommandInstance\<close> of command.ts, and the registry and the middleware
  \<open>setupCommandParser\<close> of the class \<open>Commander\<close> of commander.ts. Promises are
  modelled by their results: a rejection is an error value, and what a dispatch does
  is a list of events in the order in which they happen.
\<close>

section \<open>Strings\<close>

text \<open>
  Source strings are modelled as \<^typ>\<open>string\<close>. The three characters the tokenizer
  tests for are ASCII; non-ASCII text is taken in UTF-8, whose multi-byte sequences
  contain none of them.
\<close>

definition backslash :: char where
  "backslash = CHR 0x5C"

definition dquote :: char where
  "dquote = CHR 0x22"

definition space :: char where
  "space = CHR 0x20"

section \<open>The tokenizer: \<open>parseArgsStringToArgv\<close> (command.ts)\<close>

text \<open>
  The four local variables of the function, \<open>args\<close>, \<open>inQuotes\<close>, \<open>escape\<close> and
  \<open>arg\<close>, form the loop state.
\<close>

record scan_state =
  args :: "string list"
  inQuotes :: bool
  escape :: bool
  arg :: string

definition scan_init :: scan_state where
  "scan_init = \<lparr>args = [], inQuotes = False, escape = False, arg = []\<rparr>"

text \<open>The body of the \<open>for\<close> loop, for the character \<open>current = value[i]\<close>.\<close>

definition scan_body :: "char \<Rightarrow> scan_state \<Rightarrow> scan_state" where
  "scan_body current st =
     (if escape st then st\<lparr>arg := arg st @ [current], escape := False\<rparr>
      else if current = backslash then st\<lparr>escape := True\<rparr>
      else if current = dquote then st\<lparr>inQuotes := \<not> inQuotes st\<rparr>
      else if current = space \<and> \<not> inQuotes st then
        (if length (arg st) > 0 then st\<lparr>args := args st @ [arg st], arg := []\<rparr> else st)
      else st\<lparr>arg := arg st @ [current]\<rparr>)"

text \<open>\<open>for (let i = 0; i < value.length; i++)\<close>, started at any index \<open>i\<close>.\<close>

function scan_loop :: "string \<Rightarrow> nat \<Rightarrow> scan_state \<Rightarrow> scan_state" where
  "scan_loop v i st =
     (if i < length v then scan_loop v (Suc i) (scan_body (v ! i) st) else st)"
  by pat_completeness auto
termination
  by (relation "measure (\<lambda>(v, i, st). length v - i)") auto

declare scan_loop.simps [simp del]

definition parseArgsStringToArgv :: "string \<Rightarrow> string list" where
  "parseArgsStringToArgv v =
     (let st = scan_loop v 0 scan_init
      in if length (arg st) > 0 then args st @ [arg st] else args st)"

text \<open>What the function returns once the loop has left the state \<open>st\<close>.\<close>

definition flush :: "scan_state \<Rightarrow> string list" where
  "flush st = (if length (arg st) > 0 then args st @ [arg st] else args st)"

subsection \<open>The tokenizer as the specification words it\<close>

text \<open>
  A second definition, by recursion on the text, that follows the wording of the
  specification: \<open>q\<close> is the inside-quotes mode, \<open>cur\<close> the current token.
  A backslash takes the next character verbatim (a backslash that ends the text has
  no next character and adds nothing); a double quote toggles \<open>q\<close> and is not emitted;
  a space outside quotes ends the current token, and an empty token is dropped; any
  other character joins the current token; at the end a non-empty token is flushed.
\<close>

fun tokenize_from :: "bool \<Rightarrow> string \<Rightarrow> string \<Rightarrow> string list" where
  "tokenize_from q cur [] = (if cur = [] then [] else [cur])"
| "tokenize_from q cur [c] =
     (if c = backslash then tokenize_from q cur []
      else if c = dquote then tokenize_from (\<not> q) cur []
      else if c = space \<and> \<not> q then (if cur = [] then [] else [cur])
      else tokenize_from q (cur @ [c]) [])"
| "tokenize_from q cur (c # d # cs) =
     (if c = backslash then tokenize_from q (cur @ [d]) cs
      else if c = dquote then tokenize_from (\<not> q) cur (d # cs)
      else if c = space \<and> \<not> q then
        (if cur = [] then tokenize_from q [] (d # cs)
         else cur # tokenize_from q [] (d # cs))
      else tokenize_from q (cur @ [c]) (d # cs))"

definition tokenize :: "string \<Rightarrow> string list" where
  "tokenize text = tokenize_from False [] text"

section \<open>JavaScript values and string operations\<close>

text \<open>
  The values a hook or a promise can hand back. \<open>truthy\<close> is the test of
  \<open>if (v)\<close> and \<open>!v\<close>; \<open>is_string\<close> is \<open>typeof v === 'string'\<close>.
\<close>

datatype jsval = JUndefined | JNull | JBool bool | JNum int | JStr string

fun truthy :: "jsval \<Rightarrow> bool" where
  "truthy JUndefined = False"
| "truthy JNull = False"
| "truthy (JBool b) = b"
| "truthy (JNum n) = (n \<noteq> 0)"
| "truthy (JStr s) = (s \<noteq> [])"

fun is_string :: "jsval \<Rightarrow> bool" where
  "is_string (JStr s) = True"
| "is_string v = False"

text \<open>
  Errors as values. \<open>TypeError p\<close> is the error of reading or calling the member \<open>p\<close> of
  \<open>undefined\<close>; \<open>Raised m\<close> is any error raised by a handler or by the transport.
\<close>

datatype error = TypeError string | Raised string

text \<open>\<open>s.indexOf(c)\<close>: the first index of \<open>c\<close>, or \<open>-1\<close>.\<close>

fun indexOf_at :: "char \<Rightarrow> string \<Rightarrow> int \<Rightarrow> int" where
  "indexOf_at c [] i = - 1"
| "indexOf_at c (x # xs) i = (if x = c then i else indexOf_at c xs (i + 1))"

definition indexOf :: "string \<Rightarrow> char \<Rightarrow> int" where
  "indexOf s c = indexOf_at c s 0"

text \<open>
  \<open>s.substring(a, b)\<close>: both indices are clamped to \<open>[0, length]\<close> and swapped when
  \<open>a > b\<close>. \<open>s.substring(a)\<close> runs to the end of the string.
\<close>

definition substring :: "string \<Rightarrow> int \<Rightarrow> int \<Rightarrow> string" where
  "substring s a b =
     (let len = int (length s);
          x = min (max a 0) len;
          y = min (max b 0) len
      in take (nat (max x y - min x y)) (drop (nat (min x y)) s))"

definition substring_from :: "string \<Rightarrow> int \<Rightarrow> string" where
  "substring_from s a = substring s a (int (length s))"

text \<open>
  \<open>s.slice(b, e)\<close>: a negative index counts from the end; the result is empty when
  the start is not before the end.
\<close>

definition slice :: "string \<Rightarrow> int \<Rightarrow> int \<Rightarrow> string" where
  "slice s b e =
     (let len = int (length s);
          from = (if b < 0 then max (len + b) 0 else min b len);
          to = (if e < 0 then max (len + e) 0 else min e len)
      in take (nat (to - from)) (drop (nat from) s))"

text \<open>\<open>s.startsWith(p)\<close>.\<close>

definition startsWith :: "string \<Rightarrow> string \<Rightarrow> bool" where
  "startsWith s p = (take (length p) s = p)"

text \<open>
  \<open>s.match(/l[^r]+r/g) || []\<close> for two delimiter characters \<open>l\<close> and \<open>r\<close>: all matches,
  leftmost first, the search resuming after each match. At a position holding \<open>l\<close> the
  greedy class takes every character up to the next \<open>r\<close>; the match needs at least
  one such character and the closing \<open>r\<close>.
\<close>

function match_delimited :: "char \<Rightarrow> char \<Rightarrow> string \<Rightarrow> string list" where
  "match_delimited l r [] = []"
| "match_delimited l r (c # cs) =
     (if c = l \<and> takeWhile (\<lambda>x. x \<noteq> r) cs \<noteq> [] \<and> dropWhile (\<lambda>x. x \<noteq> r) cs \<noteq> []
      then (c # takeWhile (\<lambda>x. x \<noteq> r) cs @ [r])
             # match_delimited l r (tl (dropWhile (\<lambda>x. x \<noteq> r) cs))
      else match_delimited l r cs)"
  by pat_completeness auto
termination
  by (relation "measure (\<lambda>(l, r, s). length s)")
     (auto simp: le_imp_less_Suc length_dropWhile_le diff_le_self le_trans [OF diff_le_self])

text \<open>\<open>xs.toString()\<close> of an array of strings: the elements joined by commas.\<close>

fun toString :: "string list \<Rightarrow> string" where
  "toString [] = []"
| "toString [x] = x"
| "toString (x # y # ys) = x @ '','' @ toString (y # ys)"

text \<open>\<open>xs[i]\<close> on an array of strings: \<open>undefined\<close> out of range.\<close>

definition at_index :: "string list \<Rightarrow> nat \<Rightarrow> jsval" where
  "at_index xs i = (if i < length xs then JStr (xs ! i) else JUndefined)"

text \<open>
  \<open>remove(list, item)\<close> of the cosmokit library: \<open>list.indexOf(item)\<close>, then
  \<open>list.splice(index, 1)\<close> when the index is not negative. The first occurrence goes.
\<close>

definition remove :: "'a list \<Rightarrow> 'a \<Rightarrow> 'a list" where
  "remove list item = remove1 item list"

section \<open>Sessions, messages and the transport\<close>

text \<open>
  The members of a message session the dispatcher reads: \<open>session.data.content\<close>,
  \<open>session.channelId\<close>, \<open>session.data.msg_id\<close> and \<open>session.data.extra.author.avatar\<close>.
\<close>

record session =
  content :: string
  channelId :: string
  msg_id :: string
  avatar :: string

datatype json =
    JsonString string
  | JsonBool bool
  | JsonArray "json list"
  | JsonObject "(string \<times> json) list"

text \<open>
  The content of an outbound message: a plain string, or \<open>JSON.stringify\<close> of a tree
  (kept as the tree).
\<close>

datatype body = Text string | Stringified json

datatype MessageType = card

text \<open>
  One call \<open>bot.sendMessage(channel, body, {type, quote})\<close>; an option that the call
  does not pass is \<open>None\<close>.
\<close>

record message =
  channel :: string
  body :: body
  msg_type :: "MessageType option"
  quote :: "string option"

text \<open>
  The transport: \<open>sendMessage\<close> returns a promise, which resolves (\<open>None\<close>) or
  rejects with an error.
\<close>

record bot =
  sendMessage :: "message \<Rightarrow> error option"

text \<open>The two fixed replies, in UTF-8.\<close>

definition missing_required :: string where
  "missing_required =
     [CHR 0xE7, CHR 0xBC, CHR 0xBA, CHR 0xE5, CHR 0xB0, CHR 0x91, CHR 0xE5, CHR 0xBF, CHR 0x85,
      CHR 0xE8, CHR 0xA6, CHR 0x81, CHR 0xE5, CHR 0x8F, CHR 0x82, CHR 0xE6, CHR 0x95, CHR 0xB0]"

definition not_found :: string where
  "not_found =
     [CHR 0xE6, CHR 0x89, CHR 0xBE, CHR 0xE4, CHR 0xB8, CHR 0x8D, CHR 0xE5, CHR 0x88, CHR 0xB0,
      CHR 0xE7, CHR 0x9B, CHR 0xB8, CHR 0xE5, CHR 0x85, CHR 0xB3, CHR 0xE6, CHR 0x8C, CHR 0x87,
      CHR 0xE4, CHR 0xBB, CHR 0xA4]"

section \<open>\<open>CommandInstance\<close> (command.ts)\<close>

text \<open>
  \<open>typeFlag(options, argv)\<close> of the type-flag library returns an object with the
  members \<open>flags\<close>, \<open>unknownFlags\<close> and \<open>_\<close> (the positional tokens). The library is
  not part of the repository: the function is a parameter of the model, and the types
  \<open>'f\<close> and \<open>'u\<close> of the two flag objects are left open.
\<close>

record ('f, 'u) TypeFlag =
  flags :: 'f
  unknownFlags :: 'u
  underscore :: "string list"

text \<open>
  The object a handler receives, \<open>{ ...argv, ...params }\<close>, as a map from member names
  to members: the three members of the type-flag result under \<open>flags\<close>,
  \<open>unknownFlags\<close> and \<open>_\<close>, overridden by the bound parameters.
\<close>

datatype ('f, 'u) member =
    Flags 'f
  | UnknownFlags 'u
  | Positionals "string list"
  | Param jsval

type_synonym ('f, 'u) argv = "string \<rightharpoonup> ('f, 'u) member"

text \<open>
  A handler, \<open>callbackFunction\<close>: it returns a string or nothing (\<open>None\<close>), or throws.
  Messages that a handler sends on its own are outside the model.
\<close>

type_synonym ('f, 'u) callbackFunction = "('f, 'u) argv \<Rightarrow> session \<Rightarrow> error + string option"

text \<open>
  The fields of the class. \<open>commandFunction\<close> is \<open>None\<close> until \<open>action\<close> has set it.
  The class declares no \<open>aliases\<close> member and its constructor assigns none, while the
  dispatcher reads \<open>obj.aliases\<close>: the field is \<open>None\<close> (\<open>undefined\<close>) on every
  instance the constructor builds, and \<open>Some\<close> only when code outside the class has
  assigned an array to the object.
\<close>

record ('o, 'f, 'u) CommandInstance =
  name :: string
  description :: string
  options :: 'o
  commandFunction :: "('f, 'u) callbackFunction option"
  requiredMatches :: "string list"
  optionalMatches :: "string list"
  aliases :: "string list option"

text \<open>The constructor.\<close>

definition new_CommandInstance :: "string \<Rightarrow> string \<Rightarrow> 'o \<Rightarrow> ('o, 'f, 'u) CommandInstance" where
  "new_CommandInstance nm desc opts =
     (let index = indexOf nm space;
          others = substring_from nm index
      in \<lparr>name = substring nm 0 index,
          description = desc,
          options = opts,
          commandFunction = None,
          requiredMatches = match_delimited (CHR ''<'') (CHR ''>'') others,
          optionalMatches = match_delimited (CHR ''['') (CHR '']'') others,
          aliases = None\<rparr>)"

definition action ::
  "('o, 'f, 'u) CommandInstance \<Rightarrow> ('f, 'u) callbackFunction \<Rightarrow> ('o, 'f, 'u) CommandInstance" where
  "action this callback = this\<lparr>commandFunction := Some callback\<rparr>"

text \<open>
  \<open>params\<close> is a plain object, \<open>{}\<close>; the model keeps its own properties, as a map
  from keys to values. The assignment \<open>params[key] = v\<close> of a value that is a string
  or \<open>undefined\<close> creates or overwrites the own property \<open>key\<close>, for every key but
  one: \<open>__proto__\<close> names the accessor that the object inherits from
  \<open>Object.prototype\<close>, whose setter ignores a value that is neither an object nor
  \<open>null\<close>, so that assignment stores nothing.
\<close>

definition assign :: "(string \<rightharpoonup> jsval) \<Rightarrow> string \<Rightarrow> jsval \<Rightarrow> (string \<rightharpoonup> jsval)" where
  "assign obj key v = (if key = ''__proto__'' then obj else obj(key \<mapsto> v))"

text \<open>The loop that assigns the required parameters, from index \<open>i\<close>.\<close>

function bind_required ::
  "string list \<Rightarrow> string list \<Rightarrow> nat \<Rightarrow> (string \<rightharpoonup> jsval) \<Rightarrow> (string \<rightharpoonup> jsval)" where
  "bind_required req pos i params =
     (if i < length req
      then bind_required req pos (Suc i) (assign params (slice (req ! i) 1 (- 1)) (at_index pos i))
      else params)"
  by pat_completeness auto
termination
  by (relation "measure (\<lambda>(req, pos, i, params). length req - i)") auto

declare bind_required.simps [simp del]

text \<open>
  The loop that assigns the optional parameters, from index \<open>i\<close>; \<open>n\<close> is
  \<open>this.requiredMatches.length\<close>.
\<close>

function bind_optional ::
  "string list \<Rightarrow> string list \<Rightarrow> nat \<Rightarrow> nat \<Rightarrow> (string \<rightharpoonup> jsval) \<Rightarrow> (string \<rightharpoonup> jsval)" where
  "bind_optional opt pos n i params =
     (if i < length opt \<and> i + n < length pos
      then bind_optional opt pos n (Suc i)
             (assign params (slice (opt ! i) 1 (- 1)) (at_index pos (i + n)))
      else params)"
  by pat_completeness auto
termination
  by (relation "measure (\<lambda>(opt, pos, n, i, params). length opt - i)") auto

declare bind_optional.simps [simp del]

text \<open>\<open>params\<close> after the two of them, for the positional tokens \<open>pos\<close>.\<close>

definition bound_params :: "('o, 'f, 'u) CommandInstance \<Rightarrow> string list \<Rightarrow> (string \<rightharpoonup> jsval)" where
  "bound_params this pos =
     bind_optional (optionalMatches this) pos (length (requiredMatches this)) 0
       (bind_required (requiredMatches this) pos 0 Map.empty)"

text \<open>
  The spread \<open>{ ...argv, ...params }\<close>: the own properties of the type-flag result,
  overridden by the own properties of \<open>params\<close>.
\<close>

definition spread :: "('f, 'u) TypeFlag \<Rightarrow> (string \<rightharpoonup> jsval) \<Rightarrow> ('f, 'u) argv" where
  "spread tf params =
     [''flags'' \<mapsto> Flags (flags tf),
      ''unknownFlags'' \<mapsto> UnknownFlags (unknownFlags tf),
      ''_'' \<mapsto> Positionals (underscore tf)]
     ++ (\<lambda>k. map_option Param (params k))"

text \<open>
  What happens during a dispatch, in order: messages handed to the transport, handler
  invocations (with the command's name and the argument object), hook emissions (with
  the event's and the command's name), errors given to the logger, and the call of the
  next middleware.
\<close>

datatype ('f, 'u) event =
    SendMessage message
  | Handler string "('f, 'u) argv"
  | Emit string string
  | LoggerError error
  | Next

text \<open>
  The first two statements of \<open>execute\<close>: the tokens of \<open>possible\<close> go through
  type-flag, and the first positional token equal to the command's name is removed.
\<close>

definition parsed_argv ::
  "('o \<Rightarrow> string list \<Rightarrow> ('f, 'u) TypeFlag) \<Rightarrow> ('o, 'f, 'u) CommandInstance \<Rightarrow> string \<Rightarrow>
   ('f, 'u) TypeFlag" where
  "parsed_argv typeFlag this possible =
     (let argv = typeFlag (options this) (parseArgsStringToArgv possible)
      in argv\<lparr>underscore := remove (underscore argv) (name this)\<rparr>)"

text \<open>The object the handler is called with, once the arity check has passed.\<close>

definition handler_argv ::
  "('o \<Rightarrow> string list \<Rightarrow> ('f, 'u) TypeFlag) \<Rightarrow> ('o, 'f, 'u) CommandInstance \<Rightarrow> string \<Rightarrow>
   ('f, 'u) argv" where
  "handler_argv typeFlag this possible =
     (let argv = parsed_argv typeFlag this possible
      in spread argv (bound_params this (underscore argv)))"

text \<open>The reply \<open>bot.sendMessage(session.channelId, result)\<close>.\<close>

definition reply :: "session \<Rightarrow> string \<Rightarrow> message" where
  "reply s result =
     \<lparr>channel = channelId s, body = Text result, msg_type = None, quote = None\<rparr>"

text \<open>A plain message that quotes the trigger: \<open>{ quote: session.data.msg_id }\<close>.\<close>

definition quoting :: "session \<Rightarrow> string \<Rightarrow> message" where
  "quoting s text =
     \<lparr>channel = channelId s, body = Text text, msg_type = None, quote = Some (msg_id s)\<rparr>"

text \<open>
  \<open>execute\<close>: the value the promise resolves with (\<open>Inr\<close>) or the error it rejects with
  (\<open>Inl\<close>), and the events. The message of the arity branch is sent without \<open>await\<close>,
  so its rejection does not reach \<open>execute\<close>; the reply is awaited. A
  \<open>commandFunction\<close> that was never set is \<open>undefined\<close>, and calling it is a type
  error.
\<close>

definition execute ::
  "('o \<Rightarrow> string list \<Rightarrow> ('f, 'u) TypeFlag) \<Rightarrow> ('o, 'f, 'u) CommandInstance \<Rightarrow> string \<Rightarrow> bot \<Rightarrow>
   session \<Rightarrow> (error + jsval) \<times> ('f, 'u) event list" where
  "execute typeFlag this possible bt s =
     (let argv = parsed_argv typeFlag this possible
      in if length (requiredMatches this) > length (underscore argv) then
           (Inr JUndefined, [SendMessage (quoting s missing_required)])
         else
           (let merged = handler_argv typeFlag this possible
            in case commandFunction this of
                 None \<Rightarrow> (Inl (TypeError ''commandFunction''), [])
               | Some f \<Rightarrow>
                   (case f merged s of
                      Inl e \<Rightarrow> (Inl e, [Handler (name this) merged])
                    | Inr None \<Rightarrow> (Inr JUndefined, [Handler (name this) merged])
                    | Inr (Some result) \<Rightarrow>
                        (if result \<noteq> [] then
                           (case sendMessage bt (reply s result) of
                              Some e \<Rightarrow>
                                (Inl e, [Handler (name this) merged, SendMessage (reply s result)])
                            | None \<Rightarrow>
                                (Inr JUndefined,
                                 [Handler (name this) merged, SendMessage (reply s result)]))
                         else (Inr JUndefined, [Handler (name this) merged])))))"

section \<open>\<open>Commander\<close> (commander.ts)\<close>

text \<open>
  \<open>_commands\<close> is a \<open>Map\<close> from contexts to arrays: an association list in insertion
  order of the keys, each key once. \<open>'c\<close> is the type of contexts.
\<close>

record ('c, 'o, 'f, 'u) Commander =
  commands :: "('c \<times> ('o, 'f, 'u) CommandInstance list) list"
  prefix :: string

text \<open>
  The collaborators of the dispatcher that are not part of the repository, as
  parameters: the type-flag function, the \<open>search\<close> function of the fast-fuzzy library
  (called with the command names as keys), the value \<open>ctx.bail\<close> resolves with for
  the event \<open>command/before-parse\<close>, the value \<open>ctx.serial\<close> resolves with for the event
  \<open>command/before-execute\<close>, and the \<open>filter\<close> predicate of each context.
\<close>

record ('c, 'o, 'f, 'u) host =
  typeFlag :: "'o \<Rightarrow> string list \<Rightarrow> ('f, 'u) TypeFlag"
  search :: "string \<Rightarrow> ('o, 'f, 'u) CommandInstance list \<Rightarrow> ('o, 'f, 'u) CommandInstance list"
  before_parse :: "string \<Rightarrow> session \<Rightarrow> jsval"
  before_execute :: "('o, 'f, 'u) CommandInstance \<Rightarrow> session \<Rightarrow> jsval"
  ctx_filter :: "'c \<Rightarrow> session \<Rightarrow> bool"

text \<open>
  \<open>command\<close>, called from the context \<open>context\<close> (\<open>this.caller\<close>): the new instance is
  pushed on the array of its context, or starts one. The result is the new registry
  and the instance. The function also leaves a callback with the context that deletes
  the context's key when the context is disposed of; disposal is not part of the model.
\<close>

definition command ::
  "('c, 'o, 'f, 'u) Commander \<Rightarrow> 'c \<Rightarrow> string \<Rightarrow> string \<Rightarrow> 'o \<Rightarrow>
   ('c, 'o, 'f, 'u) Commander \<times> ('o, 'f, 'u) CommandInstance" where
  "command this context commandName desc opts =
     (let cmd = new_CommandInstance commandName desc opts
      in (if context \<in> set (map fst (commands this))
          then this\<lparr>commands :=
                 map (\<lambda>(k, v). if k = context then (k, v @ [cmd]) else (k, v)) (commands this)\<rparr>
          else this\<lparr>commands := commands this @ [(context, [cmd])]\<rparr>,
          cmd))"

text \<open>\<open>this._commands.get(context)\<close>, with the empty array for a missing key.\<close>

definition commands_of ::
  "('c, 'o, 'f, 'u) Commander \<Rightarrow> 'c \<Rightarrow> ('o, 'f, 'u) CommandInstance list" where
  "commands_of this context = (case map_of (commands this) context of None \<Rightarrow> [] | Some v \<Rightarrow> v)"

text \<open>
  \<open>action\<close> on the instance that was registered at position \<open>i\<close> of a context's array:
  the registry holds the very object the registration returned.
\<close>

definition action_at ::
  "('c, 'o, 'f, 'u) Commander \<Rightarrow> 'c \<Rightarrow> nat \<Rightarrow> ('f, 'u) callbackFunction \<Rightarrow>
   ('c, 'o, 'f, 'u) Commander" where
  "action_at this context i callback =
     this\<lparr>commands :=
       map (\<lambda>(k, v). if k = context \<and> i < length v then (k, v[i := action (v ! i) callback])
                     else (k, v))
         (commands this)\<rparr>"

text \<open>
  A sequence of registrations \<open>ctx.command(name, description, options)\<close>, each from a
  context, and each followed by \<open>.action(callback)\<close> on the returned instance when a
  callback is given.
\<close>

fun register_all ::
  "('c, 'o, 'f, 'u) Commander \<Rightarrow>
   ('c \<times> string \<times> string \<times> 'o \<times> ('f, 'u) callbackFunction option) list \<Rightarrow>
   ('c, 'o, 'f, 'u) Commander" where
  "register_all this [] = this"
| "register_all this ((context, commandName, desc, opts, callback) # rest) =
     (let this' = fst (command this context commandName desc opts)
      in register_all
           (case callback of
              None \<Rightarrow> this'
            | Some f \<Rightarrow> action_at this' context (length (commands_of this' context) - 1) f)
           rest)"

text \<open>The instance that one registration of such a sequence leaves in the registry.\<close>

definition registered ::
  "'c \<times> string \<times> string \<times> 'o \<times> ('f, 'u) callbackFunction option \<Rightarrow> ('o, 'f, 'u) CommandInstance" where
  "registered r =
     (case r of (context, commandName, desc, opts, callback) \<Rightarrow>
        (case callback of
           None \<Rightarrow> new_CommandInstance commandName desc opts
         | Some f \<Rightarrow> action (new_CommandInstance commandName desc opts) f))"

text \<open>The registry of a new \<open>Commander\<close>.\<close>

definition new_Commander :: "string \<Rightarrow> ('c, 'o, 'f, 'u) Commander" where
  "new_Commander commandPrefix = \<lparr>commands = [], prefix = commandPrefix\<rparr>"

text \<open>The split of the input at its first space.\<close>

definition split_input :: "string \<Rightarrow> string \<times> string" where
  "split_input input =
     (let index = indexOf input space
      in if index \<noteq> - 1 then (substring input 0 index, substring_from input (index + 1))
         else (input, []))"

text \<open>\<open>meetCommands\<close>: the arrays of the contexts whose filter accepts the session.\<close>

definition meetCommands ::
  "('c, 'o, 'f, 'u) host \<Rightarrow> ('c, 'o, 'f, 'u) Commander \<Rightarrow> session \<Rightarrow>
   ('o, 'f, 'u) CommandInstance list" where
  "meetCommands h this s =
     concat (map snd (filter (\<lambda>(context, cmds). ctx_filter h context s) (commands this)))"

text \<open>
  The matching loop: it ends at the first match, with \<open>commandArray\<close> when no command
  matched, or with the error of reading \<open>includes\<close> on an \<open>aliases\<close> that is undefined.
\<close>

datatype 'a matching = Matched 'a | Unmatched "'a list" | Threw error

fun find_command ::
  "string \<Rightarrow> ('o, 'f, 'u) CommandInstance list \<Rightarrow> ('o, 'f, 'u) CommandInstance list \<Rightarrow>
   ('o, 'f, 'u) CommandInstance matching" where
  "find_command commandInputMain [] commandArray = Unmatched commandArray"
| "find_command commandInputMain (obj # rest) commandArray =
     (if commandInputMain = name obj then Matched obj
      else case aliases obj of
             None \<Rightarrow> Threw (TypeError ''includes'')
           | Some as \<Rightarrow>
               if commandInputMain \<in> set as then Matched obj
               else find_command commandInputMain rest (commandArray @ [obj]))"

text \<open>The result of the middleware and the events of the dispatch.\<close>

datatype outcome = Passed | Handled | Rejected error

record ('f, 'u) dispatched =
  outcome :: outcome
  trace :: "('f, 'u) event list"

text \<open>
  The matched branch. The chain of promises is not awaited by the middleware, which has
  returned by then; its events are the trace. The value \<open>r\<close> of \<open>execute\<close> decides the
  emission of \<open>command/execute\<close>; an error of \<open>execute\<close> goes to the logger.
\<close>

definition run_matched ::
  "('c, 'o, 'f, 'u) host \<Rightarrow> ('o, 'f, 'u) CommandInstance \<Rightarrow> string \<Rightarrow> bot \<Rightarrow> session \<Rightarrow>
   ('f, 'u) event list" where
  "run_matched h obj argsText bt s =
     (case before_execute h obj s of
        JStr result \<Rightarrow>
          [SendMessage (quoting s result)]
      | _ \<Rightarrow>
          (case execute (typeFlag h) obj argsText bt s of
             (Inr r, tr) \<Rightarrow>
               tr @ (if truthy r then [Emit ''command/execute'' (name obj)] else [])
           | (Inl e, tr) \<Rightarrow> tr @ [LoggerError e]))"

text \<open>The name and description of one search result, for the card.\<close>

definition card_entry :: "('o, 'f, 'u) CommandInstance \<Rightarrow> error + string \<times> string" where
  "card_entry item =
     (case aliases item of
        None \<Rightarrow> Inl (TypeError ''length'')
      | Some as \<Rightarrow>
          Inr (name item @ '' '' @ (if length as \<noteq> 0 then ''('' @ toString as @ '')'' else []),
               description item))"

fun card_entries :: "('o, 'f, 'u) CommandInstance list \<Rightarrow> error + (string \<times> string) list" where
  "card_entries [] = Inr []"
| "card_entries (item # rest) =
     (case card_entry item of
        Inl e \<Rightarrow> Inl e
      | Inr x \<Rightarrow> (case card_entries rest of Inl e \<Rightarrow> Inl e | Inr xs \<Rightarrow> Inr (x # xs)))"

text \<open>The fixed texts of the card, in UTF-8.\<close>

definition card_heading :: string where
  "card_heading =
     ''**'' @ [CHR 0xE6, CHR 0x8C, CHR 0x87, CHR 0xE4, CHR 0xBB, CHR 0xA4] @ ''** - *''
     @ [CHR 0xE6, CHR 0x8F, CHR 0x8F, CHR 0xE8, CHR 0xBF, CHR 0xB0] @ ''* '' @ [CHR 0x0A]"

definition card_title :: string where
  "card_title =
     [CHR 0xE7, CHR 0x9B, CHR 0xB8, CHR 0xE4, CHR 0xBC, CHR 0xBC, CHR 0xE6, CHR 0x8C, CHR 0x87,
      CHR 0xE4, CHR 0xBB, CHR 0xA4, CHR 0xE6, CHR 0x8F, CHR 0x90, CHR 0xE7, CHR 0xA4, CHR 0xBA]"

definition card_trigger :: string where
  "card_trigger =
     [CHR 0xE5, CHR 0x8C, CHR 0xB9, CHR 0xE9, CHR 0x85, CHR 0x8D, CHR 0xE8, CHR 0xA7, CHR 0xA6,
      CHR 0xE5, CHR 0x8F, CHR 0x91, CHR 0xEF, CHR 0xBC, CHR 0x9A]"

text \<open>The loop of \<open>CardTemplete\<close> that appends one line for each command.\<close>

fun card_lines :: "string \<Rightarrow> (string \<times> string) list \<Rightarrow> string" where
  "card_lines acc [] = acc"
| "card_lines acc ((n, d) # rest) =
     card_lines (acc @ ''**'' @ n @ ''** - *'' @ d @ ''*'' @ [CHR 0x0A]) rest"

definition CardTemplete :: "(string \<times> string) list \<Rightarrow> string \<Rightarrow> string \<Rightarrow> json" where
  "CardTemplete cmds input avatar_src =
     JsonArray
       [JsonObject
          [(''type'', JsonString ''card''),
           (''size'', JsonString ''lg''),
           (''theme'', JsonString ''warning''),
           (''modules'',
            JsonArray
              [JsonObject
                 [(''type'', JsonString ''header''),
                  (''text'',
                   JsonObject
                     [(''type'', JsonString ''plain-text''),
                      (''content'', JsonString card_title)])],
               JsonObject
                 [(''type'', JsonString ''section''),
                  (''text'',
                   JsonObject
                     [(''type'', JsonString ''kmarkdown''),
                      (''content'', JsonString (card_lines card_heading cmds))])],
               JsonObject
                 [(''type'', JsonString ''context''),
                  (''elements'',
                   JsonArray
                     [JsonObject
                        [(''type'', JsonString ''plain-text''),
                         (''content'', JsonString card_trigger)],
                      JsonObject
                        [(''type'', JsonString ''image''),
                         (''src'', JsonString avatar_src),
                         (''alt'', JsonString []),
                         (''size'', JsonString ''lg''),
                         (''circle'', JsonBool False)],
                      JsonObject
                        [(''type'', JsonString ''kmarkdown''),
                         (''content'', JsonString input)]])]])]]"

text \<open>The unmatched branch: the search, then the plain reply or the card.\<close>

definition suggest ::
  "('c, 'o, 'f, 'u) host \<Rightarrow> string \<Rightarrow> ('o, 'f, 'u) CommandInstance list \<Rightarrow> session \<Rightarrow>
   ('f, 'u) dispatched" where
  "suggest h commandInputMain commandArray s =
     (let result = search h commandInputMain commandArray
      in if length result = 0 then
           \<lparr>outcome = Handled, trace = [SendMessage (quoting s not_found)]\<rparr>
         else
           (case card_entries result of
              Inl e \<Rightarrow> \<lparr>outcome = Rejected e, trace = []\<rparr>
            | Inr msg \<Rightarrow>
                \<lparr>outcome = Handled,
                 trace = [SendMessage \<lparr>channel = channelId s,
                                       body = Stringified (CardTemplete msg (content s) (avatar s)),
                                       msg_type = Some card, quote = Some (msg_id s)\<rparr>]\<rparr>))"

text \<open>The middleware from the split of the input on.\<close>

definition parse_input ::
  "('c, 'o, 'f, 'u) host \<Rightarrow> ('c, 'o, 'f, 'u) Commander \<Rightarrow> bot \<Rightarrow> session \<Rightarrow> string \<Rightarrow>
   ('f, 'u) dispatched" where
  "parse_input h this bt s input =
     (case split_input input of
        (commandInputMain, argsText) \<Rightarrow>
          (case find_command commandInputMain (meetCommands h this s) [] of
             Matched obj \<Rightarrow> \<lparr>outcome = Handled, trace = run_matched h obj argsText bt s\<rparr>
           | Threw e \<Rightarrow> \<lparr>outcome = Rejected e, trace = []\<rparr>
           | Unmatched commandArray \<Rightarrow> suggest h commandInputMain commandArray s))"

text \<open>
  The head of the middleware, up to the pre-parse hook: the message is not a command,
  or the hook cancels, or the parse goes on with an input text. A string from the hook
  replaces the input; any other value that is not \<open>undefined\<close> cancels when it is
  falsy.
\<close>

datatype preparsed = NotCommand | Cancelled | Input string

definition pre_parse ::
  "('c, 'o, 'f, 'u) host \<Rightarrow> ('c, 'o, 'f, 'u) Commander \<Rightarrow> session \<Rightarrow> preparsed" where
  "pre_parse h this s =
     (if \<not> startsWith (content s) (prefix this) then NotCommand
      else
        (let input = substring_from (content s) (int (length (prefix this)));
             response = before_parse h input s
         in if response \<noteq> JUndefined then
              (case response of
                 JStr r \<Rightarrow> Input r
               | _ \<Rightarrow> if \<not> truthy response then Cancelled else Input input)
            else Input input))"

text \<open>The middleware \<open>setupCommandParser\<close>.\<close>

definition setupCommandParser ::
  "('c, 'o, 'f, 'u) host \<Rightarrow> ('c, 'o, 'f, 'u) Commander \<Rightarrow> bot \<Rightarrow> session \<Rightarrow> ('f, 'u) dispatched" where
  "setupCommandParser h this bt s =
     (case pre_parse h this s of
        NotCommand \<Rightarrow> \<lparr>outcome = Passed, trace = [Next]\<rparr>
      | Cancelled \<Rightarrow> \<lparr>outcome = Handled, trace = []\<rparr>
      | Input input \<Rightarrow> parse_input h this bt s input)"

text \<open>The messages among the events.\<close>

fun sent :: "('f, 'u) event list \<Rightarrow> message list" where
  "sent [] = []"
| "sent (SendMessage m # es) = m # sent es"
| "sent (e # es) = sent es"

section \<open>Collaborators for the scenarios\<close>

text \<open>
  The type-flag function for an empty schema, on tokens none of which starts with a
  dash: every token is positional.
\<close>

definition positional_only :: "unit \<Rightarrow> string list \<Rightarrow> (unit, unit) TypeFlag" where
  "positional_only opts tokens = \<lparr>flags = (), unknownFlags = (), underscore = tokens\<rparr>"

text \<open>
  A host without hook listeners, where every context is visible; \<open>fuzzy\<close> is the search
  function.
\<close>

definition plain_host ::
  "(string \<Rightarrow> (unit, unit, unit) CommandInstance list \<Rightarrow> (unit, unit, unit) CommandInstance list) \<Rightarrow>
   (nat, unit, unit, unit) host" where
  "plain_host fuzzy =
     \<lparr>typeFlag = positional_only,
      search = fuzzy,
      before_parse = (\<lambda>input s. JUndefined),
      before_execute = (\<lambda>obj s. JUndefined),
      ctx_filter = (\<lambda>context s. True)\<rparr>"

text \<open>A search that finds nothing.\<close>

definition no_result ::
  "string \<Rightarrow> (unit, unit, unit) CommandInstance list \<Rightarrow> (unit, unit, unit) CommandInstance list" where
  "no_result query candidates = []"

text \<open>A search that keeps every candidate.\<close>

definition every_candidate ::
  "string \<Rightarrow> (unit, unit, unit) CommandInstance list \<Rightarrow> (unit, unit, unit) CommandInstance list" where
  "every_candidate query candidates = candidates"

text \<open>A transport on which every message goes through.\<close>

definition quiet_bot :: bot where
  "quiet_bot = \<lparr>sendMessage = (\<lambda>m. None)\<rparr>"

text \<open>A transport that rejects every message.\<close>

definition offline_bot :: bot where
  "offline_bot = \<lparr>sendMessage = (\<lambda>m. Some (Raised ''offline''))\<rparr>"

text \<open>A message with the content \<open>text\<close>.\<close>

definition incoming :: "string \<Rightarrow> session" where
  "incoming text =
     \<lparr>content = text, channelId = ''channel'', msg_id = ''trigger'', avatar = ''avatar''\<rparr>"

text \<open>The handler of the scenario \<open>greet <name>\<close>: it returns \<open>"Hello, " + args.name\<close>.\<close>

definition greet :: "(unit, unit) callbackFunction" where
  "greet argv s =
     (case argv ''name'' of
        Some (Param (JStr n)) \<Rightarrow> Inr (Some (''Hello, '' @ n))
      | _ \<Rightarrow> Inr None)"

text \<open>A handler that returns its parameter \<open>text\<close>.\<close>

definition echo :: "(unit, unit) callbackFunction" where
  "echo argv s =
     (case argv ''text'' of
        Some (Param (JStr t)) \<Rightarrow> Inr (Some t)
      | _ \<Rightarrow> Inr None)"

text \<open>A handler that throws.\<close>

definition failing :: "(unit, unit) callbackFunction" where
  "failing argv s = Inl (Raised ''boom'')"




section \<open>Properties of the tokenizer\<close>

text \<open>The index loop is a left fold of the loop body over the remaining characters.\<close>

lemma scan_loop_fold:
  "scan_loop v i st = fold scan_body (drop i v) st"
proof (induction v i st rule: scan_loop.induct)
  case (1 v i st)
  show ?case
  proof (cases "i < length v")
    case True
    then have "drop i v = v ! i # drop (Suc i) v"
      by (simp add: Cons_nth_drop_Suc)
    with True 1 show ?thesis
      by (subst scan_loop.simps) simp
  next
    case False
    then show ?thesis
      by (subst scan_loop.simps) simp
  qed
qed

lemma parseArgsStringToArgv_fold:
  "parseArgsStringToArgv v = flush (fold scan_body v scan_init)"
  by (simp add: parseArgsStringToArgv_def flush_def scan_loop_fold Let_def)

text \<open>One step of the loop body, on a state that is or is not escaping.\<close>

lemma scan_body_escaped:
  "scan_body c \<lparr>args = a, inQuotes = q, escape = True, arg = cur\<rparr> =
     \<lparr>args = a, inQuotes = q, escape = False, arg = cur @ [c]\<rparr>"
  by (simp add: scan_body_def)

lemma scan_body_plain:
  "scan_body c \<lparr>args = a, inQuotes = q, escape = False, arg = cur\<rparr> =
     (if c = backslash then \<lparr>args = a, inQuotes = q, escape = True, arg = cur\<rparr>
      else if c = dquote then \<lparr>args = a, inQuotes = \<not> q, escape = False, arg = cur\<rparr>
      else if c = space \<and> \<not> q then
        (if cur = [] then \<lparr>args = a, inQuotes = q, escape = False, arg = []\<rparr>
         else \<lparr>args = a @ [cur], inQuotes = q, escape = False, arg = []\<rparr>)
      else \<lparr>args = a, inQuotes = q, escape = False, arg = cur @ [c]\<rparr>)"
  by (simp add: scan_body_def)

text \<open>The specification's scan, unfolded at the first character of any text.\<close>

lemma tokenize_from_Cons:
  "tokenize_from q cur (c # cs) =
     (if c = backslash then
        (case cs of [] \<Rightarrow> tokenize_from q cur [] | d # ds \<Rightarrow> tokenize_from q (cur @ [d]) ds)
      else if c = dquote then tokenize_from (\<not> q) cur cs
      else if c = space \<and> \<not> q then
        (if cur = [] then tokenize_from q [] cs else cur # tokenize_from q [] cs)
      else tokenize_from q (cur @ [c]) cs)"
  by (cases cs) simp_all

text \<open>
  The fold agrees with the specification's scan; a pending escape is the second half
  of the specification's backslash step.
\<close>

lemma fold_scan_tokenize:
  "flush (fold scan_body cs \<lparr>args = a, inQuotes = q, escape = e, arg = cur\<rparr>) =
     a @ (if e then (case cs of [] \<Rightarrow> tokenize_from q cur []
                      | d # ds \<Rightarrow> tokenize_from q (cur @ [d]) ds)
          else tokenize_from q cur cs)"
proof (induction cs arbitrary: a q e cur)
  case Nil
  show ?case by (simp add: flush_def)
next
  case (Cons c cs)
  show ?case
  proof (cases e)
    case True
    then show ?thesis
      by (simp add: scan_body_escaped Cons.IH)
  next
    case False
    then show ?thesis
      by (simp add: scan_body_plain Cons.IH tokenize_from_Cons del: tokenize_from.simps)
  qed
qed

lemma parseArgsStringToArgv_tokenize:
  "parseArgsStringToArgv v = tokenize v"
  by (simp add: parseArgsStringToArgv_fold tokenize_def scan_init_def fold_scan_tokenize)

lemma tokenize_from_nonempty:
  "[] \<notin> set (tokenize_from q cur cs)"
  by (induction q cur cs rule: tokenize_from.induct) auto

text \<open>
  Claim C6. For every input the tokenizer of the source computes the scan that the
  specification describes: a backslash takes the next character verbatim, a double
  quote toggles the inside-quotes mode and is not emitted, a space outside quotes and
  outside an escape ends the current token, empty tokens are dropped, every other
  character joins the current token, and a non-empty last token is flushed. No token
  is empty. The text \<open>foo "bar baz" qux\<close> gives the three tokens \<open>foo\<close>,
  \<open>bar baz\<close> and \<open>qux\<close>; a quote that is never closed is no error, the rest of
  the text is read as quoted; an escaped space or quote is kept and a backslash at
  the end adds nothing. The function is total: it has no error result.
\<close>

theorem tokenizer_scan:
  "parseArgsStringToArgv v = tokenize v
   \<and> [] \<notin> set (parseArgsStringToArgv v)
   \<and> parseArgsStringToArgv (''foo '' @ dquote # ''bar baz'' @ dquote # '' qux'')
       = [''foo'', ''bar baz'', ''qux'']
   \<and> parseArgsStringToArgv (''foo '' @ dquote # ''bar baz'') = [''foo'', ''bar baz'']
   \<and> parseArgsStringToArgv (''a'' @ backslash # '' b '' @ backslash # dquote # ''c '' @ [backslash])
       = [''a b'', dquote # ''c'']"
proof -
  have eq: "\<And>v. parseArgsStringToArgv v = tokenize v"
    by (rule parseArgsStringToArgv_tokenize)
  have ne: "[] \<notin> set (parseArgsStringToArgv v)"
    by (simp add: eq tokenize_def tokenize_from_nonempty)
  have ex1: "tokenize (''foo '' @ dquote # ''bar baz'' @ dquote # '' qux'')
               = [''foo'', ''bar baz'', ''qux'']"
    by (simp add: tokenize_def backslash_def dquote_def space_def)
  have ex2: "tokenize (''foo '' @ dquote # ''bar baz'') = [''foo'', ''bar baz'']"
    by (simp add: tokenize_def backslash_def dquote_def space_def)
  have ex3: "tokenize (''a'' @ backslash # '' b '' @ backslash # dquote # ''c '' @ [backslash])
               = [''a b'', dquote # ''c'']"
    by (simp add: tokenize_def backslash_def dquote_def space_def)
  show ?thesis
    using ne ex1 ex2 ex3 by (simp only: eq simp_thms)
qed

section \<open>Properties of the parameter binding\<close>

lemma map_upds_append:
  "length xs = length ys \<Longrightarrow> m(xs @ xs' [\<mapsto>] ys @ ys') = (m(xs [\<mapsto>] ys))(xs' [\<mapsto>] ys')"
  by (simp add: map_upds_def)

lemma map_upds_lookup_cong:
  "m k = m' k \<Longrightarrow> (m(ks [\<mapsto>] vs)) k = (m'(ks [\<mapsto>] vs)) k"
  by (simp add: map_upds_def map_add_def split: option.splits)

lemma assign_proto:
  "assign params n v ''__proto__'' = params ''__proto__''"
  by (simp add: assign_def)

lemma assign_other:
  "k \<noteq> ''__proto__'' \<Longrightarrow> ((assign params n v)(ks [\<mapsto>] vs)) k = (params(n # ks [\<mapsto>] v # vs)) k"
proof -
  assume "k \<noteq> ''__proto__''"
  then have "assign params n v k = (params(n \<mapsto> v)) k"
    by (simp add: assign_def)
  then have "((assign params n v)(ks [\<mapsto>] vs)) k = ((params(n \<mapsto> v))(ks [\<mapsto>] vs)) k"
    by (rule map_upds_lookup_cong)
  then show ?thesis
    by (simp only: map_upds_Cons)
qed

text \<open>
  Each loop is a simultaneous update, later assignments winning, on every key but
  \<open>__proto__\<close>, which keeps what it had.
\<close>

lemma bind_required_lookup:
  "bind_required req pos i params k =
     (if k = ''__proto__'' then params k
      else (params(map (\<lambda>x. slice x 1 (- 1)) (drop i req)
                   [\<mapsto>] map (at_index pos) [i..<length req])) k)"
proof (induction req pos i params rule: bind_required.induct)
  case (1 req pos i params)
  show ?case
  proof (cases "i < length req")
    case True
    let ?n = "slice (req ! i) 1 (- 1)" and ?v = "at_index pos i"
    let ?ks = "map (\<lambda>x. slice x 1 (- 1)) (drop (Suc i) req)"
    let ?vs = "map (at_index pos) [Suc i..<length req]"
    have step: "bind_required req pos i params k
                  = bind_required req pos (Suc i) (assign params ?n ?v) k"
      using True by (subst bind_required.simps) simp
    have ih: "bind_required req pos (Suc i) (assign params ?n ?v) k =
                (if k = ''__proto__'' then assign params ?n ?v k
                 else ((assign params ?n ?v)(?ks [\<mapsto>] ?vs)) k)"
      by (rule 1 [OF True])
    have names: "map (\<lambda>x. slice x 1 (- 1)) (drop i req) = ?n # ?ks"
      using True by (simp add: Cons_nth_drop_Suc [symmetric])
    have vals: "map (at_index pos) [i..<length req] = ?v # ?vs"
      using True by (simp add: upt_conv_Cons)
    show ?thesis
    proof (cases "k = ''__proto__''")
      case True
      with step ih show ?thesis
        by (simp add: assign_proto)
    next
      case False
      with step ih assign_other [OF False, of params ?n ?v ?ks ?vs] show ?thesis
        by (simp only: names vals if_False)
    qed
  next
    case False
    then show ?thesis
      by (subst bind_required.simps) simp
  qed
qed

lemma bind_optional_lookup:
  "bind_optional opt pos n i params k =
     (if k = ''__proto__'' then params k
      else (params(map (\<lambda>x. slice x 1 (- 1)) (drop i opt)
                   [\<mapsto>] map (at_index pos) [i + n..<length pos])) k)"
proof (induction opt pos n i params rule: bind_optional.induct)
  case (1 opt pos n i params)
  show ?case
  proof (cases "i < length opt \<and> i + n < length pos")
    case True
    let ?n = "slice (opt ! i) 1 (- 1)" and ?v = "at_index pos (i + n)"
    let ?ks = "map (\<lambda>x. slice x 1 (- 1)) (drop (Suc i) opt)"
    let ?vs = "map (at_index pos) [Suc i + n..<length pos]"
    have step: "bind_optional opt pos n i params k
                  = bind_optional opt pos n (Suc i) (assign params ?n ?v) k"
      using True by (subst bind_optional.simps) simp
    have ih: "bind_optional opt pos n (Suc i) (assign params ?n ?v) k =
                (if k = ''__proto__'' then assign params ?n ?v k
                 else ((assign params ?n ?v)(?ks [\<mapsto>] ?vs)) k)"
      using True by (intro 1) simp_all
    have names: "map (\<lambda>x. slice x 1 (- 1)) (drop i opt) = ?n # ?ks"
      using True by (simp add: Cons_nth_drop_Suc [symmetric])
    have vals: "map (at_index pos) [i + n..<length pos] = ?v # ?vs"
      using True by (simp add: upt_conv_Cons)
    show ?thesis
    proof (cases "k = ''__proto__''")
      case True
      with step ih show ?thesis
        by (simp add: assign_proto)
    next
      case False
      with step ih assign_other [OF False, of params ?n ?v ?ks ?vs] show ?thesis
        by (simp only: names vals if_False)
    qed
  next
    case False
    then show ?thesis
      by (subst bind_optional.simps) auto
  qed
qed

lemma at_index_upt:
  assumes "n \<le> length pos"
  shows "map (at_index pos) [0..<n] @ map (at_index pos) [n..<length pos] = map JStr pos"
proof -
  have "[0..<n] @ [n..<length pos] = [0..<length pos]"
    using assms upt_add_eq_append [of 0 n "length pos - n"] by simp
  then have "map (at_index pos) ([0..<n] @ [n..<length pos]) = map (at_index pos) [0..<length pos]"
    by (rule arg_cong)
  moreover have "map (at_index pos) [0..<length pos] = map JStr pos"
    by (rule nth_equalityI) (simp_all add: at_index_def)
  ultimately show ?thesis
    by (simp only: map_append)
qed

lemma bound_params_lookup:
  assumes "length (requiredMatches this) \<le> length pos"
  shows "bound_params this pos k =
           (if k = ''__proto__'' then None
            else (Map.empty(map (\<lambda>x. slice x 1 (- 1)) (requiredMatches this @ optionalMatches this)
                            [\<mapsto>] map JStr pos)) k)"
proof (cases "k = ''__proto__''")
  case True
  then show ?thesis
    by (simp add: bound_params_def bind_required_lookup bind_optional_lookup)
next
  case False
  let ?strip = "\<lambda>x. slice x 1 (- 1)"
  let ?req = "requiredMatches this" and ?opt = "optionalMatches this"
  let ?first = "bind_required ?req pos 0 Map.empty"
  let ?reqv = "map (at_index pos) [0..<length ?req]"
  let ?optv = "map (at_index pos) [length ?req..<length pos]"
  have "?first k = (Map.empty(map ?strip ?req [\<mapsto>] ?reqv)) k"
    using False by (simp add: bind_required_lookup)
  then have "(?first(map ?strip ?opt [\<mapsto>] ?optv)) k
               = ((Map.empty(map ?strip ?req [\<mapsto>] ?reqv))(map ?strip ?opt [\<mapsto>] ?optv)) k"
    by (rule map_upds_lookup_cong)
  moreover have "bound_params this pos k = (?first(map ?strip ?opt [\<mapsto>] ?optv)) k"
    using False by (simp add: bound_params_def bind_optional_lookup)
  moreover have "(Map.empty(map ?strip ?req [\<mapsto>] ?reqv))(map ?strip ?opt [\<mapsto>] ?optv)
                   = Map.empty(map ?strip ?req @ map ?strip ?opt [\<mapsto>] ?reqv @ ?optv)"
    by (rule map_upds_append [symmetric]) simp
  moreover have "?reqv @ ?optv = map JStr pos"
    using assms by (rule at_index_upt)
  ultimately show ?thesis
    using False by (simp only: map_append if_False)
qed



text \<open>The signature \<open>cmd <a> <b> [c]\<close>, as the constructor reads it.\<close>

lemma signature_example:
  "requiredMatches (new_CommandInstance ''cmd <a> <b> [c]'' d opts) = [''<a>'', ''<b>'']"
  "optionalMatches (new_CommandInstance ''cmd <a> <b> [c]'' d opts) = [''[c]'']"
  "name (new_CommandInstance ''cmd <a> <b> [c]'' d opts) = ''cmd''"
  by (simp_all add: new_CommandInstance_def indexOf_def space_def substring_def substring_from_def Let_def)


section \<open>Evaluation of the string operations\<close>

lemmas string_ops =
  indexOf_def substring_def substring_from_def slice_def startsWith_def space_def
  backslash_def dquote_def Let_def

lemma indexOf_at_absent:
  "c \<notin> set s \<Longrightarrow> indexOf_at c s i = - 1"
  by (induction s arbitrary: i) auto

lemma indexOf_at_first:
  "c \<notin> set pre \<Longrightarrow> indexOf_at c (pre @ c # post) i = i + int (length pre)"
  by (induction pre arbitrary: i) auto

lemma split_input_whole:
  "space \<notin> set input \<Longrightarrow> split_input input = (input, [])"
  by (simp add: split_input_def indexOf_def indexOf_at_absent)

lemma split_input_space:
  assumes "space \<notin> set commandInputMain"
  shows "split_input (commandInputMain @ space # argsText) = (commandInputMain, argsText)"
proof -
  have "indexOf (commandInputMain @ space # argsText) space = int (length commandInputMain)"
    using indexOf_at_first [OF assms, of argsText 0] by (simp add: indexOf_def)
  moreover have "nat (int (length commandInputMain) + 1) = Suc (length commandInputMain)"
    by simp
  ultimately show ?thesis
    by (simp add: split_input_def substring_def substring_from_def Let_def)
qed

text \<open>The name and the parameters that the constructor reads from a declaration.\<close>

lemma new_CommandInstance_name:
  assumes "space \<notin> set nm"
  shows "name (new_CommandInstance (nm @ space # rest) desc opts) = nm"
proof -
  have "indexOf (nm @ space # rest) space = int (length nm)"
    using indexOf_at_first [OF assms, of rest 0] by (simp add: indexOf_def)
  then show ?thesis
    by (simp add: new_CommandInstance_def substring_def Let_def)
qed

section \<open>Properties of the registry\<close>

lemma commands_of_command:
  fixes this :: "('c, 'o, 'f, 'u) Commander"
  shows "commands_of (fst (command this context n d opts)) c =
     (if c = context then commands_of this context @ [new_CommandInstance n d opts]
      else commands_of this c)"
proof -
  let ?cmd = "new_CommandInstance n d opts :: ('o, 'f, 'u) CommandInstance"
  have pushed: "map_of (map (\<lambda>(k, v). if k = context then (k, v @ [?cmd]) else (k, v)) xs) c =
          (if c = context then map_option (\<lambda>v. v @ [?cmd]) (map_of xs c) else map_of xs c)"
    for xs :: "('c \<times> ('o, 'f, 'u) CommandInstance list) list"
    by (induction xs) auto
  have started: "map_of (xs @ [(context, [?cmd])]) c =
          (if c = context then Some [?cmd] else map_of xs c)"
    if "context \<notin> fst ` set xs" for xs :: "('c \<times> ('o, 'f, 'u) CommandInstance list) list"
    using that by (induction xs) auto
  show ?thesis
  proof (cases "context \<in> set (map fst (commands this))")
    case True
    then show ?thesis
      by (simp add: command_def commands_of_def Let_def pushed map_of_eq_None_iff
               split: option.splits)
  next
    case False
    then have nin: "context \<notin> fst ` set (commands this)"
      by simp
    then have none: "map_of (commands this) context = None"
      by (simp add: map_of_eq_None_iff)
    from False show ?thesis
      by (simp add: command_def commands_of_def Let_def started [OF nin] none
               del: map_of_append)
  qed
qed

lemma map_of_action_other:
  fixes xs :: "('c \<times> ('o, 'f, 'u) CommandInstance list) list"
  shows "c \<noteq> context \<Longrightarrow>
         map_of (map (\<lambda>(k, v). if k = context \<and> i < length v
                                   then (k, v[i := action (v ! i) f]) else (k, v)) xs) c =
          map_of xs c"
  by (induction xs) (simp_all split: prod.splits)

lemma map_of_action_same:
  fixes xs :: "('c \<times> ('o, 'f, 'u) CommandInstance list) list"
  shows "map_of (map (\<lambda>(k, v). if k = context \<and> i < length v
                                   then (k, v[i := action (v ! i) f]) else (k, v)) xs) context =
          map_option (\<lambda>v. if i < length v then v[i := action (v ! i) f] else v) (map_of xs context)"
  by (induction xs) (simp_all split: prod.splits)

lemma commands_of_action_at:
  fixes this :: "('c, 'o, 'f, 'u) Commander"
  shows "commands_of (action_at this context i f) c =
     (if c = context \<and> i < length (commands_of this context)
      then (commands_of this context)[i := action (commands_of this context ! i) f]
      else commands_of this c)"
proof (cases "c = context")
  case True
  then show ?thesis
    by (cases "map_of (commands this) context")
       (simp_all add: action_at_def commands_of_def map_of_action_same)
next
  case False
  then show ?thesis
    by (simp add: action_at_def commands_of_def map_of_action_other)
qed

lemma commands_of_register_all:
  "commands_of (register_all this regs) c =
     commands_of this c @ map registered (filter (\<lambda>r. fst r = c) regs)"
proof (induction this regs rule: register_all.induct)
  case (1 this)
  show ?case by simp
next
  case (2 this ctx commandName desc opts callback rest)
  let ?this' = "fst (command this ctx commandName desc opts)"
  show ?case
  proof (cases callback)
    case None
    with 2 [of ?this'] show ?thesis
      by (simp add: commands_of_command registered_def)
  next
    case (Some f)
    with 2 [of ?this'] show ?thesis
      by (simp add: commands_of_command commands_of_action_at registered_def)
  qed
qed

lemma commands_of_new: "commands_of (new_Commander p) c = []"
  by (simp add: commands_of_def new_Commander_def)

lemma distinct_keys_command:
  fixes this :: "('c, 'o, 'f, 'u) Commander"
  assumes "distinct (map fst (commands this))"
  shows "distinct (map fst (commands (fst (command this context n d opts))))"
proof -
  have same: "map (fst \<circ> (\<lambda>(k, v). if k = context then (k, v @ [cmd]) else (k, v))) xs
                = map fst xs"
    for xs :: "('c \<times> ('o, 'f, 'u) CommandInstance list) list" and cmd
    by (induction xs) auto
  show ?thesis
    using assms by (simp add: command_def Let_def same)
qed

lemma keys_action_at:
  fixes this :: "('c, 'o, 'f, 'u) Commander"
  shows "map fst (commands (action_at this context i f)) = map fst (commands this)"
proof -
  have "map (fst \<circ> (\<lambda>(k, v). if k = context \<and> i < length v
                                  then (k, v[i := action (v ! i) f]) else (k, v))) xs
          = map fst xs"
    for xs :: "('c \<times> ('o, 'f, 'u) CommandInstance list) list"
    by (induction xs) auto
  then show ?thesis
    by (simp add: action_at_def)
qed

lemma distinct_keys_register_all:
  "distinct (map fst (commands this)) \<Longrightarrow>
   distinct (map fst (commands (register_all this regs)))"
proof (induction this regs rule: register_all.induct)
  case (1 this)
  then show ?case by simp
next
  case (2 this ctx commandName desc opts callback rest)
  let ?this' = "fst (command this ctx commandName desc opts)"
  have keys: "distinct (map fst (commands ?this'))"
    using 2(2) by (rule distinct_keys_command)
  show ?case
  proof (cases callback)
    case None
    with 2(1) [of ?this'] keys show ?thesis
      by (simp add: Let_def)
  next
    case (Some f)
    with 2(1) [of ?this'] keys show ?thesis
      by (simp add: Let_def keys_action_at)
  qed
qed

text \<open>
  Claim C3, as amended. After any sequence of registrations on a new registry, the
  list of a scope holds one instance for each registration made from that scope, in
  the order of the registrations, and each scope is one key of the registry. There is
  no check of the names: a name registered twice is in the list twice.
\<close>

theorem registrations_kept:
  fixes regs :: "('c \<times> string \<times> string \<times> 'o \<times> ('f, 'u) callbackFunction option) list"
  shows "commands_of (register_all (new_Commander p) regs) c =
     map registered (filter (\<lambda>r. fst r = c) regs)
   \<and> distinct (map fst (commands (register_all (new_Commander p) regs)))"
proof
  show "commands_of (register_all (new_Commander p) regs) c =
          map registered (filter (\<lambda>r. fst r = c) regs)"
    by (simp add: commands_of_register_all commands_of_new)
  have "distinct (map fst (commands (new_Commander p :: ('c, 'o, 'f, 'u) Commander)))"
    by (simp add: new_Commander_def)
  then show "distinct (map fst (commands (register_all (new_Commander p) regs)))"
    by (rule distinct_keys_register_all)
qed

text \<open>
  Claim C3, as stated, fails: two registrations of the name \<open>foo\<close> from one scope leave
  two commands named \<open>foo\<close> in the list of that scope.
\<close>

theorem duplicate_names_counterexample:
  "\<not> distinct (map name (commands_of
       (register_all (new_Commander ''!'' :: (nat, unit, unit, unit) Commander)
          [(0, ''foo <a>'', ''first'', (), None), (0, ''foo <b>'', ''second'', (), None)])
       0))"
proof -
  have "name (new_CommandInstance (''foo'' @ space # ''<a>'') ''first'' ()
              :: (unit, unit, unit) CommandInstance) = ''foo''"
    and "name (new_CommandInstance (''foo'' @ space # ''<b>'') ''second'' ()
              :: (unit, unit, unit) CommandInstance) = ''foo''"
    by (rule new_CommandInstance_name, simp add: space_def)+
  then show ?thesis
    by (simp add: commands_of_register_all commands_of_new registered_def space_def
          del: register_all.simps)
qed

section \<open>Properties of \<open>execute\<close>\<close>

lemma execute_arity:
  assumes "length (underscore (parsed_argv tf this possible)) < length (requiredMatches this)"
  shows "execute tf this possible bt s = (Inr JUndefined, [SendMessage (quoting s missing_required)])"
  using assms by (simp add: execute_def Let_def)

text \<open>
  Claim C4. When fewer positional tokens are left, after the flags and the command's
  name are taken out, than the command has required parameters, \<open>execute\<close> hands
  exactly one message to the transport, the missing-parameter text quoting the
  trigger; the events hold no handler invocation, so no parameter was bound and the
  handler was not called; and the promise resolves, whatever the transport does with
  the message.
\<close>

theorem missing_required_parameter:
  assumes "length (underscore (parsed_argv tf this possible)) < length (requiredMatches this)"
  shows "execute tf this possible bt s =
           (Inr JUndefined,
            [SendMessage \<lparr>channel = channelId s, body = Text missing_required,
                          msg_type = None, quote = Some (msg_id s)\<rparr>])"
  using assms by (simp add: execute_def Let_def quoting_def)

text \<open>The signature \<open>cmd <a> <b> [c]\<close> with the single token \<open>1\<close>.\<close>

theorem missing_required_parameter_witness:
  "length (underscore (parsed_argv positional_only
       (registered (0::nat, ''cmd <a> <b> [c]'', ''demo'', (), Some greet)) ''1''))
     < length (requiredMatches (registered (0::nat, ''cmd <a> <b> [c]'', ''demo'', (), Some greet)))
   \<and> execute positional_only (registered (0::nat, ''cmd <a> <b> [c]'', ''demo'', (), Some greet))
       ''1'' quiet_bot (incoming ''!cmd 1'') =
       (Inr JUndefined,
        [SendMessage \<lparr>channel = ''channel'', body = Text missing_required,
                      msg_type = None, quote = Some ''trigger''\<rparr>])"
proof -
  let ?cmd = "registered (0::nat, ''cmd <a> <b> [c]'', ''demo'', (), Some greet)"
  have tokens: "parseArgsStringToArgv ''1'' = [''1'']"
    by (simp add: parseArgsStringToArgv_tokenize tokenize_def string_ops)
  have short: "length (underscore (parsed_argv positional_only ?cmd ''1''))
                 < length (requiredMatches ?cmd)"
    by (simp add: parsed_argv_def tokens positional_only_def remove_def registered_def
          action_def signature_example)
  from short missing_required_parameter [OF short, of quiet_bot "incoming ''!cmd 1''"]
  show ?thesis
    by (simp add: incoming_def)
qed

section \<open>Properties of the dispatch\<close>

lemma setupCommandParser_Input:
  "pre_parse h this s = Input input \<Longrightarrow>
   setupCommandParser h this bt s = parse_input h this bt s input"
  by (simp add: setupCommandParser_def)

lemma parse_input_Matched:
  "split_input input = (commandInputMain, argsText) \<Longrightarrow>
   find_command commandInputMain (meetCommands h this s) [] = Matched obj \<Longrightarrow>
   parse_input h this bt s input = \<lparr>outcome = Handled, trace = run_matched h obj argsText bt s\<rparr>"
  by (simp add: parse_input_def)

lemma parse_input_Threw:
  "find_command (fst (split_input input)) (meetCommands h this s) [] = Threw e \<Longrightarrow>
   parse_input h this bt s input = \<lparr>outcome = Rejected e, trace = []\<rparr>"
  by (cases "split_input input") (simp add: parse_input_def)

text \<open>The scenarios: a host without listeners, the prefix \<open>!\<close>, one visible scope.\<close>

lemma plain_pre_parse:
  "pre_parse (plain_host fuzzy) \<lparr>commands = cs, prefix = ''!''\<rparr> (incoming (CHR ''!'' # input))
     = Input input"
  by (simp add: pre_parse_def plain_host_def incoming_def startsWith_def substring_from_def
        substring_def)

lemma plain_meetCommands:
  "meetCommands (plain_host fuzzy) \<lparr>commands = [(context, cmds)], prefix = p\<rparr> s = cmds"
  by (simp add: meetCommands_def plain_host_def)

lemma one_registration:
  "register_all (new_Commander p) [(context, nm, desc, opts, Some f)] =
     \<lparr>commands = [(context, [action (new_CommandInstance nm desc opts) f])], prefix = p\<rparr>"
  by (simp add: new_Commander_def command_def commands_of_def action_at_def Let_def)

lemma two_registrations:
  "register_all (new_Commander p) [(context, nm, desc, opts, Some f), (context, nm', desc', opts', Some f')] =
     \<lparr>commands = [(context, [action (new_CommandInstance nm desc opts) f,
                               action (new_CommandInstance nm' desc' opts') f'])], prefix = p\<rparr>"
  by (simp add: new_Commander_def command_def commands_of_def action_at_def Let_def)

section \<open>The execute notification\<close>

lemma execute_resolves_undefined:
  "fst (execute tf this possible bt s) = Inr r \<Longrightarrow> r = JUndefined"
  by (auto simp: execute_def Let_def split: if_splits option.splits sum.splits)

lemma execute_no_emit:
  "Emit ev n \<notin> set (snd (execute tf this possible bt s))"
  by (auto simp: execute_def Let_def split: if_splits option.splits sum.splits)

lemma run_matched_no_emit:
  "Emit ev n \<notin> set (run_matched h obj argsText bt s)"
proof -
  obtain x tr where ex: "execute (typeFlag h) obj argsText bt s = (x, tr)"
    by (cases "execute (typeFlag h) obj argsText bt s")
  have tr: "Emit ev n \<notin> set tr"
    using execute_no_emit [of ev n "typeFlag h" obj argsText bt s] ex by simp
  have "x = Inr r \<Longrightarrow> \<not> truthy r" for r
    using execute_resolves_undefined [of "typeFlag h" obj argsText bt s r] ex by auto
  with tr ex show ?thesis
    by (cases x; cases "before_execute h obj s") (auto simp: run_matched_def)
qed

lemma suggest_no_emit:
  "Emit ev n \<notin> set (trace (suggest h commandInputMain commandArray s))"
  by (simp add: suggest_def Let_def split: sum.splits)

lemma parse_input_no_emit:
  "Emit ev n \<notin> set (trace (parse_input h this bt s input))"
  by (simp add: parse_input_def run_matched_no_emit suggest_no_emit
        split: prod.splits matching.splits)

lemma run_matched_trace:
  assumes "\<not> is_string (before_execute h obj s)"
  shows "run_matched h obj argsText bt s =
           snd (execute (typeFlag h) obj argsText bt s)
           @ (case fst (execute (typeFlag h) obj argsText bt s) of
                Inl e \<Rightarrow> [LoggerError e]
              | Inr r \<Rightarrow> [])"
proof -
  obtain x tr where ex: "execute (typeFlag h) obj argsText bt s = (x, tr)"
    by (cases "execute (typeFlag h) obj argsText bt s")
  have "x = Inr r \<Longrightarrow> \<not> truthy r" for r
    using execute_resolves_undefined [of "typeFlag h" obj argsText bt s r] ex by auto
  with assms ex show ?thesis
    by (cases x; cases "before_execute h obj s") (auto simp: run_matched_def)
qed

text \<open>
  Claim C2 is not what the code does. \<open>execute\<close> has no return value: its promise
  resolves with \<open>undefined\<close> on every path, also after a reply was sent, so the test
  \<open>if (r)\<close> of the dispatcher fails and no dispatch ever emits \<open>command/execute\<close>.
\<close>

theorem execute_hook_never_emitted:
  "(fst (execute tf obj argsText bt s) = Inr r \<longrightarrow> r = JUndefined)
   \<and> Emit ev n \<notin> set (trace (setupCommandParser h this bt s))"
proof
  show "fst (execute tf obj argsText bt s) = Inr r \<longrightarrow> r = JUndefined"
    using execute_resolves_undefined [of tf obj argsText bt s r] by simp
  show "Emit ev n \<notin> set (trace (setupCommandParser h this bt s))"
    by (cases "pre_parse h this s") (simp_all add: setupCommandParser_def parse_input_no_emit)
qed

text \<open>The declarations of the scenarios, as the constructor reads them.\<close>

lemma greet_declaration:
  "new_CommandInstance ''greet <name>'' desc opts =
     \<lparr>name = ''greet'', description = desc, options = opts, commandFunction = None,
      requiredMatches = [''<name>''], optionalMatches = [], aliases = None\<rparr>"
  by (simp add: new_CommandInstance_def string_ops)

lemma echo_declaration:
  "new_CommandInstance ''echo <text>'' desc opts =
     \<lparr>name = ''echo'', description = desc, options = opts, commandFunction = None,
      requiredMatches = [''<text>''], optionalMatches = [], aliases = None\<rparr>"
  by (simp add: new_CommandInstance_def string_ops)

lemma foo_declaration:
  "new_CommandInstance ''foo <x>'' desc opts =
     \<lparr>name = ''foo'', description = desc, options = opts, commandFunction = None,
      requiredMatches = [''<x>''], optionalMatches = [], aliases = None\<rparr>"
  by (simp add: new_CommandInstance_def string_ops)

lemma bar_declaration:
  "new_CommandInstance ''bar <x>'' desc opts =
     \<lparr>name = ''bar'', description = desc, options = opts, commandFunction = None,
      requiredMatches = [''<x>''], optionalMatches = [], aliases = None\<rparr>"
  by (simp add: new_CommandInstance_def string_ops)

text \<open>One positional token bound to one required parameter.\<close>

lemma one_positional:
  assumes "parseArgsStringToArgv possible = [v]" and "v \<noteq> name this"
  shows "parsed_argv positional_only this possible
           = \<lparr>flags = (), unknownFlags = (), underscore = [v]\<rparr>"
  using assms by (simp add: parsed_argv_def positional_only_def remove_def)

lemma one_required:
  assumes "requiredMatches this = [r]" and "optionalMatches this = []"
    and "parseArgsStringToArgv possible = [v]" and "v \<noteq> name this"
    and "slice r 1 (- 1) \<noteq> ''__proto__''"
  shows "handler_argv positional_only this possible (slice r 1 (- 1)) = Some (Param (JStr v))"
  using assms
  by (simp add: handler_argv_def one_positional spread_def bound_params_lookup)

lemma greet_alice_argv:
  fixes s :: session
  defines "cmd \<equiv> action (new_CommandInstance ''greet <name>'' ''Greets'' ()) greet"
  shows "underscore (parsed_argv positional_only cmd ''Alice'') = [''Alice'']"
    and "greet (handler_argv positional_only cmd ''Alice'') s = Inr (Some ''Hello, Alice'')"
proof -
  have tokens: "parseArgsStringToArgv ''Alice'' = [''Alice'']"
    by (simp add: parseArgsStringToArgv_tokenize tokenize_def string_ops)
  have fields: "requiredMatches cmd = [''<name>'']" "optionalMatches cmd = []"
    "name cmd = ''greet''"
    by (simp_all add: cmd_def action_def greet_declaration)
  have "parsed_argv positional_only cmd ''Alice''
          = \<lparr>flags = (), unknownFlags = (), underscore = [''Alice'']\<rparr>"
    by (rule one_positional) (simp_all add: fields tokens)
  then show "underscore (parsed_argv positional_only cmd ''Alice'') = [''Alice'']"
    by simp
  have "handler_argv positional_only cmd ''Alice'' (slice ''<name>'' 1 (- 1))
          = Some (Param (JStr ''Alice''))"
    by (rule one_required) (simp_all add: fields tokens slice_def Let_def)
  then have "handler_argv positional_only cmd ''Alice'' ''name'' = Some (Param (JStr ''Alice''))"
    by (simp add: slice_def)
  then show "greet (handler_argv positional_only cmd ''Alice'') s = Inr (Some ''Hello, Alice'')"
    by (simp add: greet_def)
qed

lemma greet_alice:
  fixes bt :: bot
  defines "cmd \<equiv> action (new_CommandInstance ''greet <name>'' ''Greets'' ()) greet"
  shows "execute positional_only cmd ''Alice'' bt s =
           (case sendMessage bt (reply s ''Hello, Alice'') of
              None \<Rightarrow> Inr JUndefined | Some e \<Rightarrow> Inl e,
            [Handler ''greet'' (handler_argv positional_only cmd ''Alice''),
             SendMessage (reply s ''Hello, Alice'')])"
proof -
  have fields: "requiredMatches cmd = [''<name>'']" "name cmd = ''greet''"
    "commandFunction cmd = Some greet"
    by (simp_all add: cmd_def action_def greet_declaration)
  show ?thesis
    unfolding cmd_def
    using fields [unfolded cmd_def]
    by (simp add: execute_def greet_alice_argv split: option.splits)
qed

theorem execute_hook_never_emitted_witness:
  "fst (execute positional_only (action (new_CommandInstance ''greet <name>'' ''Greets'' ()) greet)
          ''Alice'' quiet_bot (incoming ''!greet Alice'')) = Inr JUndefined
   \<and> sent (trace (setupCommandParser (plain_host no_result)
        (register_all (new_Commander ''!'') [(0::nat, ''greet <name>'', ''Greets'', (), Some greet)])
        quiet_bot (incoming ''!greet Alice'')))
       = [\<lparr>channel = ''channel'', body = Text ''Hello, Alice'', msg_type = None, quote = None\<rparr>]
   \<and> Emit ''command/execute'' ''greet'' \<notin> set (trace (setupCommandParser (plain_host no_result)
        (register_all (new_Commander ''!'') [(0::nat, ''greet <name>'', ''Greets'', (), Some greet)])
        quiet_bot (incoming ''!greet Alice'')))"
proof -
  let ?cmd = "action (new_CommandInstance ''greet <name>'' ''Greets'' ()) greet"
  let ?s = "incoming ''!greet Alice''"
  let ?reg = "\<lparr>commands = [(0::nat, [?cmd])], prefix = ''!''\<rparr>"
  have ex: "execute positional_only ?cmd ''Alice'' quiet_bot ?s =
              (Inr JUndefined,
               [Handler ''greet'' (handler_argv positional_only ?cmd ''Alice''),
                SendMessage (reply ?s ''Hello, Alice'')])"
    by (simp add: greet_alice quiet_bot_def)
  have split: "split_input ''greet Alice'' = (''greet'', ''Alice'')"
    by (simp add: split_input_def string_ops)
  have "parse_input (plain_host no_result) ?reg quiet_bot ?s ''greet Alice'' =
          \<lparr>outcome = Handled, trace = run_matched (plain_host no_result) ?cmd ''Alice'' quiet_bot ?s\<rparr>"
    by (rule parse_input_Matched [OF split])
       (simp add: plain_meetCommands action_def greet_declaration)
  then have "setupCommandParser (plain_host no_result) ?reg quiet_bot ?s =
          \<lparr>outcome = Handled, trace = run_matched (plain_host no_result) ?cmd ''Alice'' quiet_bot ?s\<rparr>"
    using plain_pre_parse [of no_result "[(0::nat, [?cmd])]" "''greet Alice''"]
    by (simp add: setupCommandParser_Input)
  moreover have "run_matched (plain_host no_result) ?cmd ''Alice'' quiet_bot ?s =
          [Handler ''greet'' (handler_argv positional_only ?cmd ''Alice''),
           SendMessage (reply ?s ''Hello, Alice'')]"
    by (subst run_matched_trace) (simp_all add: plain_host_def ex)
  ultimately have sent: "sent (trace (setupCommandParser (plain_host no_result) ?reg quiet_bot ?s))
      = [\<lparr>channel = ''channel'', body = Text ''Hello, Alice'', msg_type = None, quote = None\<rparr>]"
    by (simp add: reply_def incoming_def)
  from execute_hook_never_emitted
         [of positional_only ?cmd "''Alice''" quiet_bot ?s JUndefined
             "''command/execute''" "''greet''" "plain_host no_result" ?reg]
       ex sent
  show ?thesis
    by (simp add: one_registration del: register_all.simps)
qed

section \<open>Errors of a handler\<close>

lemma plain_matched:
  assumes "split_input input = (commandInputMain, argsText)"
    and "find_command commandInputMain cmds [] = Matched obj"
  shows "setupCommandParser (plain_host fuzzy) \<lparr>commands = [(context, cmds)], prefix = ''!''\<rparr> bt
           (incoming (CHR ''!'' # input)) =
         \<lparr>outcome = Handled,
          trace = snd (execute positional_only obj argsText bt (incoming (CHR ''!'' # input)))
                  @ (case fst (execute positional_only obj argsText bt (incoming (CHR ''!'' # input))) of
                       Inl e \<Rightarrow> [LoggerError e]
                     | Inr r \<Rightarrow> [])\<rparr>"
proof -
  let ?h = "plain_host fuzzy" and ?s = "incoming (CHR ''!'' # input)"
  let ?reg = "\<lparr>commands = [(context, cmds)], prefix = ''!''\<rparr>"
  have "parse_input ?h ?reg bt ?s input =
          \<lparr>outcome = Handled, trace = run_matched ?h obj argsText bt ?s\<rparr>"
    using assms by (intro parse_input_Matched) (simp_all add: plain_meetCommands)
  moreover have "run_matched ?h obj argsText bt ?s =
          snd (execute (typeFlag ?h) obj argsText bt ?s)
          @ (case fst (execute (typeFlag ?h) obj argsText bt ?s) of
               Inl e \<Rightarrow> [LoggerError e] | Inr r \<Rightarrow> [])"
    by (rule run_matched_trace) (simp add: plain_host_def)
  moreover have "typeFlag ?h = positional_only"
    by (simp add: plain_host_def)
  ultimately show ?thesis
    using plain_pre_parse [of fuzzy "[(context, cmds)]" input]
    by (simp add: setupCommandParser_Input)
qed

text \<open>
  Claim C8. An error that the handler throws, or with which the transport rejects the
  reply, is the error with which \<open>execute\<close> rejects: \<open>execute\<close> does not catch it.
  When \<open>execute\<close> rejects on the matched branch, the dispatcher gives the error to the
  logger as its last event, and the middleware itself returns normally.
\<close>

theorem handler_error_logged:
  "(length (requiredMatches obj) \<le> length (underscore (parsed_argv tf obj argsText))
      \<and> commandFunction obj = Some f \<and> f (handler_argv tf obj argsText) s = Inl e
     \<longrightarrow> execute tf obj argsText bt s
           = (Inl e, [Handler (name obj) (handler_argv tf obj argsText)]))
   \<and> (length (requiredMatches obj) \<le> length (underscore (parsed_argv tf obj argsText))
      \<and> commandFunction obj = Some f
      \<and> f (handler_argv tf obj argsText) s = Inr (Some result) \<and> result \<noteq> []
      \<and> sendMessage bt (reply s result) = Some e
     \<longrightarrow> execute tf obj argsText bt s
           = (Inl e, [Handler (name obj) (handler_argv tf obj argsText),
                      SendMessage (reply s result)]))
   \<and> (pre_parse h this s = Input input
      \<and> split_input input = (commandInputMain, argsText)
      \<and> find_command commandInputMain (meetCommands h this s) [] = Matched obj
      \<and> \<not> is_string (before_execute h obj s)
      \<and> execute (typeFlag h) obj argsText bt s = (Inl e, tr)
     \<longrightarrow> setupCommandParser h this bt s = \<lparr>outcome = Handled, trace = tr @ [LoggerError e]\<rparr>)"
proof (intro conjI impI)
  assume "length (requiredMatches obj) \<le> length (underscore (parsed_argv tf obj argsText))
      \<and> commandFunction obj = Some f \<and> f (handler_argv tf obj argsText) s = Inl e"
  then show "execute tf obj argsText bt s
               = (Inl e, [Handler (name obj) (handler_argv tf obj argsText)])"
    by (simp add: execute_def Let_def)
next
  assume "length (requiredMatches obj) \<le> length (underscore (parsed_argv tf obj argsText))
      \<and> commandFunction obj = Some f
      \<and> f (handler_argv tf obj argsText) s = Inr (Some result) \<and> result \<noteq> []
      \<and> sendMessage bt (reply s result) = Some e"
  then show "execute tf obj argsText bt s
               = (Inl e, [Handler (name obj) (handler_argv tf obj argsText),
                          SendMessage (reply s result)])"
    by (simp add: execute_def Let_def)
next
  assume a: "pre_parse h this s = Input input
      \<and> split_input input = (commandInputMain, argsText)
      \<and> find_command commandInputMain (meetCommands h this s) [] = Matched obj
      \<and> \<not> is_string (before_execute h obj s)
      \<and> execute (typeFlag h) obj argsText bt s = (Inl e, tr)"
  then have "split_input input = (commandInputMain, argsText)"
    and "find_command commandInputMain (meetCommands h this s) [] = Matched obj"
    by simp_all
  then have "parse_input h this bt s input =
               \<lparr>outcome = Handled, trace = run_matched h obj argsText bt s\<rparr>"
    by (rule parse_input_Matched)
  moreover have "run_matched h obj argsText bt s = tr @ [LoggerError e]"
    using a by (simp add: run_matched_trace)
  ultimately show "setupCommandParser h this bt s
                     = \<lparr>outcome = Handled, trace = tr @ [LoggerError e]\<rparr>"
    using a by (simp add: setupCommandParser_Input)
qed

text \<open>
  The command \<open>foo <x>\<close> with a handler that throws, called as \<open>!foo 1\<close>.
\<close>

theorem handler_error_logged_witness:
  "length (requiredMatches (action (new_CommandInstance ''foo <x>'' ''Fails'' ()) failing))
     \<le> length (underscore (parsed_argv positional_only
           (action (new_CommandInstance ''foo <x>'' ''Fails'' ()) failing) ''1''))
   \<and> failing (handler_argv positional_only
         (action (new_CommandInstance ''foo <x>'' ''Fails'' ()) failing) ''1'')
       (incoming ''!foo 1'') = Inl (Raised ''boom'')
   \<and> fst (execute positional_only (action (new_CommandInstance ''foo <x>'' ''Fails'' ()) failing)
           ''1'' quiet_bot (incoming ''!foo 1'')) = Inl (Raised ''boom'')
   \<and> outcome (setupCommandParser (plain_host no_result)
        (register_all (new_Commander ''!'') [(0::nat, ''foo <x>'', ''Fails'', (), Some failing)])
        quiet_bot (incoming ''!foo 1'')) = Handled
   \<and> last (trace (setupCommandParser (plain_host no_result)
        (register_all (new_Commander ''!'') [(0::nat, ''foo <x>'', ''Fails'', (), Some failing)])
        quiet_bot (incoming ''!foo 1''))) = LoggerError (Raised ''boom'')
   \<and> greet (handler_argv positional_only
         (action (new_CommandInstance ''greet <name>'' ''Greets'' ()) greet) ''Alice'')
       (incoming ''!greet Alice'') = Inr (Some ''Hello, Alice'')
   \<and> sendMessage offline_bot (reply (incoming ''!greet Alice'') ''Hello, Alice'')
       = Some (Raised ''offline'')
   \<and> fst (execute positional_only (action (new_CommandInstance ''greet <name>'' ''Greets'' ()) greet)
           ''Alice'' offline_bot (incoming ''!greet Alice'')) = Inl (Raised ''offline'')"
proof -
  let ?greet = "action (new_CommandInstance ''greet <name>'' ''Greets'' ()) greet"
  let ?s' = "incoming ''!greet Alice''"
  have greet_fields: "requiredMatches ?greet = [''<name>'']" "commandFunction ?greet = Some greet"
    by (simp_all add: action_def greet_declaration)
  have greet_arity: "length (requiredMatches ?greet)
                       \<le> length (underscore (parsed_argv positional_only ?greet ''Alice''))"
    by (simp add: greet_fields greet_alice_argv)
  have replies: "greet (handler_argv positional_only ?greet ''Alice'') ?s' = Inr (Some ''Hello, Alice'')"
    by (rule greet_alice_argv)
  have rejects: "sendMessage offline_bot (reply ?s' ''Hello, Alice'') = Some (Raised ''offline'')"
    by (simp add: offline_bot_def)
  from handler_error_logged
         [of ?greet positional_only "''Alice''" greet ?s' "Raised ''offline''" offline_bot
             "''Hello, Alice''" "plain_host no_result" "new_Commander ''!''" "''greet Alice''"
             "''greet''" "[]"]
       greet_arity greet_fields replies rejects
  have offline: "fst (execute positional_only ?greet ''Alice'' offline_bot ?s') = Inl (Raised ''offline'')"
    by simp
  let ?cmd = "action (new_CommandInstance ''foo <x>'' ''Fails'' ()) failing"
  let ?s = "incoming ''!foo 1''"
  let ?h = "plain_host no_result"
  let ?reg = "\<lparr>commands = [(0::nat, [?cmd])], prefix = ''!''\<rparr>"
  let ?argv = "handler_argv positional_only ?cmd ''1''"
  have tokens: "parseArgsStringToArgv ''1'' = [''1'']"
    by (simp add: parseArgsStringToArgv_tokenize tokenize_def string_ops)
  have fields: "requiredMatches ?cmd = [''<x>'']" "optionalMatches ?cmd = []"
    "name ?cmd = ''foo''" "commandFunction ?cmd = Some failing"
    by (simp_all add: action_def foo_declaration)
  have parsed: "parsed_argv positional_only ?cmd ''1''
                  = \<lparr>flags = (), unknownFlags = (), underscore = [''1'']\<rparr>"
    by (rule one_positional) (simp_all add: fields tokens)
  have arity: "length (requiredMatches ?cmd)
                 \<le> length (underscore (parsed_argv positional_only ?cmd ''1''))"
    by (simp add: parsed fields)
  have throws: "failing ?argv ?s = Inl (Raised ''boom'')"
    by (simp add: failing_def)
  have pre: "pre_parse ?h ?reg ?s = Input ''foo 1''"
    using plain_pre_parse [of no_result "[(0::nat, [?cmd])]" "''foo 1''"] by simp
  have split: "split_input ''foo 1'' = (''foo'', ''1'')"
    by (simp add: split_input_def string_ops)
  have found: "find_command ''foo'' (meetCommands ?h ?reg ?s) [] = Matched ?cmd"
    by (simp add: plain_meetCommands fields)
  have hook: "\<not> is_string (before_execute ?h ?cmd ?s)"
    by (simp add: plain_host_def)
  have tf: "typeFlag ?h = positional_only"
    by (simp add: plain_host_def)
  note inst = handler_error_logged
    [of ?cmd positional_only "''1''" failing ?s "Raised ''boom''" quiet_bot _ ?h ?reg
        "''foo 1''" "''foo''" "[Handler ''foo'' ?argv]"]
  from inst arity fields throws
  have ex: "execute positional_only ?cmd ''1'' quiet_bot ?s = (Inl (Raised ''boom''), [Handler ''foo'' ?argv])"
    by simp
  with inst pre split found hook tf
  have "setupCommandParser ?h ?reg quiet_bot ?s
          = \<lparr>outcome = Handled, trace = [Handler ''foo'' ?argv] @ [LoggerError (Raised ''boom'')]\<rparr>"
    by simp
  with arity throws ex replies rejects offline show ?thesis
    by (simp add: one_registration del: register_all.simps)
qed

section \<open>The matching loop and the aliases\<close>

text \<open>
  On commands whose \<open>aliases\<close> are all defined the loop finds the first command whose
  name or aliases equal the head, and collects the others.
\<close>

lemma find_command_defined_aliases:
  assumes "\<forall>c \<in> set cs. aliases c \<noteq> None"
  shows "find_command commandInputMain cs acc =
           (case List.find (\<lambda>c. commandInputMain = name c
                                  \<or> commandInputMain \<in> set (the (aliases c))) cs of
              Some c \<Rightarrow> Matched c
            | None \<Rightarrow> Unmatched (acc @ cs))"
  using assms
  by (induction cs arbitrary: acc) (auto split: option.splits)

text \<open>
  The visible commands are the arrays of the visible scopes one after the other, the
  scopes in the order of their first registration: the order of the registrations
  within a scope, not across scopes.
\<close>

lemma visible_commands_grouped_by_scope:
  "map name (meetCommands (plain_host no_result)
     (register_all (new_Commander ''!'')
        [(1::nat, ''a <x>'', ''First'', (), None),
         (2, ''b <x>'', ''Second'', (), None),
         (1, ''c <x>'', ''Third'', (), None)])
     s) = [''a'', ''c'', ''b'']"
proof -
  have names: "name (new_CommandInstance ''a <x>'' ''First'' () :: (unit, unit, unit) CommandInstance) = ''a''"
    "name (new_CommandInstance ''b <x>'' ''Second'' () :: (unit, unit, unit) CommandInstance) = ''b''"
    "name (new_CommandInstance ''c <x>'' ''Third'' () :: (unit, unit, unit) CommandInstance) = ''c''"
    by (simp_all add: new_CommandInstance_def string_ops)
  have "register_all (new_Commander ''!'' :: (nat, unit, unit, unit) Commander)
        [(1::nat, ''a <x>'', ''First'', (), None),
         (2, ''b <x>'', ''Second'', (), None),
         (1, ''c <x>'', ''Third'', (), None)]
     = \<lparr>commands =
          [(1, [new_CommandInstance ''a <x>'' ''First'' (), new_CommandInstance ''c <x>'' ''Third'' ()]),
           (2, [new_CommandInstance ''b <x>'' ''Second'' ()])],
        prefix = ''!''\<rparr>"
    by (simp add: new_Commander_def command_def Let_def)
  then show ?thesis
    by (simp add: meetCommands_def plain_host_def names del: register_all.simps)
qed

text \<open>
  Claim C1 is not what the code does. No instance that the constructor builds has an
  \<open>aliases\<close> member, so the loop throws at the first visible command whose name is
  not the head, before it looks at any later command: a later command is not found,
  by name or by alias.
\<close>

theorem undefined_aliases_stop_matching:
  assumes "pre_parse h this s = Input input"
    and "meetCommands h this s = c # cs"
    and "aliases c = None"
    and "name c \<noteq> fst (split_input input)"
  shows "setupCommandParser h this bt s
           = \<lparr>outcome = Rejected (TypeError ''includes''), trace = []\<rparr>"
proof -
  have "find_command (fst (split_input input)) (meetCommands h this s) []
          = Threw (TypeError ''includes'')"
    using assms(2-4) by auto
  then have "parse_input h this bt s input
               = \<lparr>outcome = Rejected (TypeError ''includes''), trace = []\<rparr>"
    by (rule parse_input_Threw)
  with assms(1) show ?thesis
    by (simp add: setupCommandParser_Input)
qed

text \<open>The commands \<open>foo <x>\<close> and \<open>bar <x>\<close>, registered in that order, and \<open>!bar 1\<close>.\<close>

theorem undefined_aliases_stop_matching_witness:
  "name (action (new_CommandInstance ''bar <x>'' ''Second'' ()) echo)
     = fst (split_input ''bar 1'')
   \<and> aliases (action (new_CommandInstance ''foo <x>'' ''First'' ()) greet) = None
   \<and> name (action (new_CommandInstance ''foo <x>'' ''First'' ()) greet)
       \<noteq> fst (split_input ''bar 1'')
   \<and> setupCommandParser (plain_host no_result)
       (register_all (new_Commander ''!'')
          [(0::nat, ''foo <x>'', ''First'', (), Some greet),
           (0, ''bar <x>'', ''Second'', (), Some echo)])
       quiet_bot (incoming ''!bar 1'')
     = \<lparr>outcome = Rejected (TypeError ''includes''), trace = []\<rparr>"
proof -
  let ?foo = "action (new_CommandInstance ''foo <x>'' ''First'' ()) greet"
  let ?bar = "action (new_CommandInstance ''bar <x>'' ''Second'' ()) echo"
  let ?reg = "\<lparr>commands = [(0::nat, [?foo, ?bar])], prefix = ''!''\<rparr>"
  let ?h = "plain_host no_result"
  have split: "split_input ''bar 1'' = (''bar'', ''1'')"
    by (simp add: split_input_def string_ops)
  have pre: "pre_parse ?h ?reg (incoming ''!bar 1'') = Input ''bar 1''"
    using plain_pre_parse [of no_result "[(0::nat, [?foo, ?bar])]" "''bar 1''"] by simp
  have meet: "meetCommands ?h ?reg (incoming ''!bar 1'') = ?foo # [?bar]"
    by (simp add: plain_meetCommands)
  have undefined: "aliases ?foo = None"
    by (simp add: action_def foo_declaration)
  have other: "name ?foo \<noteq> fst (split_input ''bar 1'')"
    by (simp add: split action_def foo_declaration)
  have later: "name ?bar = fst (split_input ''bar 1'')"
    by (simp add: split action_def bar_declaration)
  from undefined_aliases_stop_matching [OF pre meet undefined other, of quiet_bot]
       undefined other later
  show ?thesis
    by (simp add: two_registrations del: register_all.simps)
qed

section \<open>The unmatched branch on registered commands\<close>

lemma aliases_command:
  assumes "\<forall>c \<in> set (concat (map snd (commands this))). aliases c = None"
  shows "\<forall>c \<in> set (concat (map snd (commands (fst (command this context n d opts))))).
           aliases c = None"
  using assms
  by (auto simp: command_def Let_def new_CommandInstance_def split: if_splits)

lemma aliases_action_at:
  fixes this :: "('c, 'o, 'f, 'u) Commander"
  assumes "\<forall>c \<in> set (concat (map snd (commands this))). aliases c = None"
  shows "\<forall>c \<in> set (concat (map snd (commands (action_at this context i f)))).
           aliases c = None"
proof -
  have "aliases c = None"
    if "c \<in> set (v[i := action (v ! i) f])" and "\<forall>c \<in> set v. aliases c = None" and "i < length v"
    for c :: "('o, 'f, 'u) CommandInstance" and v
    using that by (auto simp: set_conv_nth nth_list_update action_def split: if_splits)
  with assms show ?thesis
    by (fastforce simp: action_at_def split: if_splits)
qed

lemma aliases_register_all:
  "\<forall>c \<in> set (concat (map snd (commands this))). aliases c = None \<Longrightarrow>
   \<forall>c \<in> set (concat (map snd (commands (register_all this regs)))). aliases c = None"
proof (induction this regs rule: register_all.induct)
  case (1 this)
  then show ?case by simp
next
  case (2 this ctx commandName desc opts callback rest)
  let ?this' = "fst (command this ctx commandName desc opts)"
  have step: "\<forall>c \<in> set (concat (map snd (commands ?this'))). aliases c = None"
    using 2(2) by (rule aliases_command)
  show ?case
  proof (cases callback)
    case None
    with 2(1) [of ?this'] step show ?thesis
      by (simp add: Let_def)
  next
    case (Some f)
    with 2(1) [of ?this'] aliases_action_at [OF step] show ?thesis
      by (simp add: Let_def)
  qed
qed

lemma meetCommands_subset:
  "set (meetCommands h this s) \<subseteq> set (concat (map snd (commands this)))"
  by (auto simp: meetCommands_def)

text \<open>
  Where the loop does end without a match, the branch sends one message: the plain
  reply that quotes the trigger when the search finds nothing, the card otherwise.
\<close>

lemma suggest_outcomes:
  "search h commandInputMain commandArray = [] \<Longrightarrow>
   suggest h commandInputMain commandArray s
     = \<lparr>outcome = Handled, trace = [SendMessage (quoting s not_found)]\<rparr>"
  "search h commandInputMain commandArray = item # items \<Longrightarrow>
   card_entries (item # items) = Inr msg \<Longrightarrow>
   suggest h commandInputMain commandArray s
     = \<lparr>outcome = Handled,
        trace = [SendMessage \<lparr>channel = channelId s,
                              body = Stringified (CardTemplete msg (content s) (avatar s)),
                              msg_type = Some card, quote = Some (msg_id s)\<rparr>]\<rparr>"
  by (simp_all add: suggest_def)

text \<open>
  Claim C9 is not what the code does. On a registry filled by registrations, when at
  least one command is visible and no visible command has the head as its name, the
  matching loop throws at the first command, for want of its \<open>aliases\<close>: the
  middleware rejects before the search, and sends neither the plain reply nor a card.
  This holds for every search function.
\<close>

theorem no_match_throws_before_search:
  assumes "pre_parse h (register_all (new_Commander p) regs) s = Input input"
    and "meetCommands h (register_all (new_Commander p) regs) s \<noteq> []"
    and "fst (split_input input)
           \<notin> name ` set (meetCommands h (register_all (new_Commander p) regs) s)"
  shows "setupCommandParser h (register_all (new_Commander p) regs) bt s
           = \<lparr>outcome = Rejected (TypeError ''includes''), trace = []\<rparr>"
proof -
  let ?reg = "register_all (new_Commander p) regs"
  obtain c cs where meet: "meetCommands h ?reg s = c # cs"
    using assms(2) by (cases "meetCommands h ?reg s") auto
  have "\<forall>c \<in> set (concat (map snd (commands ?reg))). aliases c = None"
    by (rule aliases_register_all) (simp add: new_Commander_def)
  moreover have "c \<in> set (meetCommands h ?reg s)"
    by (simp add: meet)
  ultimately have undefined: "aliases c = None"
    using meetCommands_subset [of h ?reg s] by blast
  have other: "name c \<noteq> fst (split_input input)"
    using assms(3) meet by auto
  have "find_command (fst (split_input input)) (meetCommands h ?reg s) []
          = Threw (TypeError ''includes'')"
    using meet undefined other by auto
  then have "parse_input h ?reg bt s input
               = \<lparr>outcome = Rejected (TypeError ''includes''), trace = []\<rparr>"
    by (rule parse_input_Threw)
  with assms(1) show ?thesis
    by (simp add: setupCommandParser_Input)
qed

text \<open>
  The scenario of the specification: \<open>greet <name>\<close> is registered and the message is
  \<open>!geret Alice\<close>; the search would keep every candidate.
\<close>

theorem no_match_throws_before_search_witness:
  "pre_parse (plain_host every_candidate)
       (register_all (new_Commander ''!'') [(0::nat, ''greet <name>'', ''Greets'', (), Some greet)])
       (incoming ''!geret Alice'') = Input ''geret Alice''
   \<and> meetCommands (plain_host every_candidate)
       (register_all (new_Commander ''!'') [(0::nat, ''greet <name>'', ''Greets'', (), Some greet)])
       (incoming ''!geret Alice'') \<noteq> []
   \<and> fst (split_input ''geret Alice'')
       \<notin> name ` set (meetCommands (plain_host every_candidate)
            (register_all (new_Commander ''!'')
               [(0::nat, ''greet <name>'', ''Greets'', (), Some greet)])
            (incoming ''!geret Alice''))
   \<and> setupCommandParser (plain_host every_candidate)
       (register_all (new_Commander ''!'') [(0::nat, ''greet <name>'', ''Greets'', (), Some greet)])
       quiet_bot (incoming ''!geret Alice'')
     = \<lparr>outcome = Rejected (TypeError ''includes''), trace = []\<rparr>"
proof -
  let ?regs = "[(0::nat, ''greet <name>'', ''Greets'', (), Some greet)]"
  let ?cmd = "action (new_CommandInstance ''greet <name>'' ''Greets'' ()) greet"
  let ?h = "plain_host every_candidate"
  let ?s = "incoming ''!geret Alice''"
  have reg: "register_all (new_Commander ''!'') ?regs
               = \<lparr>commands = [(0::nat, [?cmd])], prefix = ''!''\<rparr>"
    by (rule one_registration)
  have pre: "pre_parse ?h (register_all (new_Commander ''!'') ?regs) ?s = Input ''geret Alice''"
    unfolding reg
    using plain_pre_parse [of every_candidate "[(0::nat, [?cmd])]" "''geret Alice''"] by simp
  have meet: "meetCommands ?h (register_all (new_Commander ''!'') ?regs) ?s = [?cmd]"
    unfolding reg by (simp add: plain_meetCommands)
  have visible: "meetCommands ?h (register_all (new_Commander ''!'') ?regs) ?s \<noteq> []"
    by (simp only: meet) simp
  have split: "split_input ''geret Alice'' = (''geret'', ''Alice'')"
    by (simp add: split_input_def string_ops)
  have unmatched: "fst (split_input ''geret Alice'')
           \<notin> name ` set (meetCommands ?h (register_all (new_Commander ''!'') ?regs) ?s)"
    by (simp only: meet) (simp add: split action_def greet_declaration)
  from pre visible unmatched
       no_match_throws_before_search [OF pre visible unmatched, of quiet_bot]
  show ?thesis
    by (intro conjI)
qed

section \<open>The removal of the command's name from the positional tokens\<close>

lemma split_input_cases:
  assumes "split_input input = (commandInputMain, argsText)"
  shows "space \<notin> set commandInputMain
         \<and> (input = commandInputMain \<and> argsText = [] \<or> input = commandInputMain @ space # argsText)"
proof (cases "space \<in> set input")
  case True
  then obtain ys zs where parts: "input = ys @ space # zs" "space \<notin> set ys"
    by (auto dest: split_list_first)
  then have "split_input input = (ys, zs)"
    by (simp add: split_input_space)
  with assms parts show ?thesis
    by simp
next
  case False
  then have "split_input input = (input, [])"
    by (rule split_input_whole)
  with assms False show ?thesis
    by simp
qed

lemma echo_tokens:
  "parseArgsStringToArgv ''echo hi'' = [''echo'', ''hi'']"
  "parseArgsStringToArgv ''echo'' = [''echo'']"
  by (simp_all add: parseArgsStringToArgv_tokenize tokenize_def string_ops)

lemma echo_echo_hi:
  fixes bt :: bot
  defines "cmd \<equiv> action (new_CommandInstance ''echo <text>'' ''Echoes'' ()) echo"
  shows "underscore (parsed_argv positional_only cmd ''echo hi'') = [''hi'']"
    and "execute positional_only cmd ''echo hi'' quiet_bot s =
           (Inr JUndefined,
            [Handler ''echo'' (handler_argv positional_only cmd ''echo hi''),
             SendMessage (reply s ''hi'')])"
    and "execute positional_only cmd ''echo'' bt s =
           (Inr JUndefined, [SendMessage (quoting s missing_required)])"
proof -
  have fields: "requiredMatches cmd = [''<text>'']" "optionalMatches cmd = []"
    "name cmd = ''echo''" "commandFunction cmd = Some echo"
    by (simp_all add: cmd_def action_def echo_declaration)
  have parsed: "parsed_argv positional_only cmd ''echo hi''
                  = \<lparr>flags = (), unknownFlags = (), underscore = [''hi'']\<rparr>"
    by (simp add: parsed_argv_def echo_tokens positional_only_def remove_def fields)
  then show "underscore (parsed_argv positional_only cmd ''echo hi'') = [''hi'']"
    by simp
  have bound: "handler_argv positional_only cmd ''echo hi'' ''text'' = Some (Param (JStr ''hi''))"
    by (simp add: handler_argv_def parsed spread_def bound_params_lookup fields slice_def)
  show "execute positional_only cmd ''echo hi'' quiet_bot s =
           (Inr JUndefined,
            [Handler ''echo'' (handler_argv positional_only cmd ''echo hi''),
             SendMessage (reply s ''hi'')])"
    by (simp add: execute_def parsed fields bound echo_def quiet_bot_def)
  have "parsed_argv positional_only cmd ''echo''
          = \<lparr>flags = (), unknownFlags = (), underscore = []\<rparr>"
    by (simp add: parsed_argv_def echo_tokens positional_only_def remove_def fields)
  then show "execute positional_only cmd ''echo'' bt s =
           (Inr JUndefined, [SendMessage (quoting s missing_required)])"
    by (simp add: execute_def fields)
qed

text \<open>
  Claim C10. The dispatcher hands \<open>execute\<close> the text after the head and its space, the
  head itself being cut off; \<open>execute\<close> still removes the first positional token that
  equals the command's name, before the arity check and the binding. So for the
  command \<open>echo <text>\<close>, the message \<open>!echo echo hi\<close> binds \<open>text\<close> to \<open>hi\<close>: the
  argument \<open>echo\<close> is lost and the reply is \<open>hi\<close>. And \<open>!echo echo\<close>, which gives the one
  required argument, is answered with the missing-parameter message.
\<close>

theorem head_removed_from_arguments:
  "(split_input input = (commandInputMain, argsText) \<longrightarrow>
      space \<notin> set commandInputMain
      \<and> (input = commandInputMain \<and> argsText = [] \<or> input = commandInputMain @ space # argsText))
   \<and> underscore (parsed_argv tf this possible)
       = remove1 (name this) (underscore (tf (options this) (parseArgsStringToArgv possible)))
   \<and> underscore (parsed_argv positional_only
         (action (new_CommandInstance ''echo <text>'' ''Echoes'' ()) echo) ''echo hi'') = [''hi'']
   \<and> setupCommandParser (plain_host no_result)
       (register_all (new_Commander ''!'') [(0::nat, ''echo <text>'', ''Echoes'', (), Some echo)])
       quiet_bot (incoming ''!echo echo hi'')
     = \<lparr>outcome = Handled,
        trace = [Handler ''echo'' (handler_argv positional_only
                   (action (new_CommandInstance ''echo <text>'' ''Echoes'' ()) echo) ''echo hi''),
                 SendMessage (reply (incoming ''!echo echo hi'') ''hi'')]\<rparr>
   \<and> setupCommandParser (plain_host no_result)
       (register_all (new_Commander ''!'') [(0::nat, ''echo <text>'', ''Echoes'', (), Some echo)])
       quiet_bot (incoming ''!echo echo'')
     = \<lparr>outcome = Handled,
        trace = [SendMessage (quoting (incoming ''!echo echo'') missing_required)]\<rparr>"
proof -
  let ?cmd = "action (new_CommandInstance ''echo <text>'' ''Echoes'' ()) echo"
  let ?reg = "\<lparr>commands = [(0::nat, [?cmd])], prefix = ''!''\<rparr>"
  have general: "split_input input = (commandInputMain, argsText) \<longrightarrow>
      space \<notin> set commandInputMain
      \<and> (input = commandInputMain \<and> argsText = [] \<or> input = commandInputMain @ space # argsText)"
    using split_input_cases [of input commandInputMain argsText] by blast
  have removal: "underscore (parsed_argv tf this possible)
       = remove1 (name this) (underscore (tf (options this) (parseArgsStringToArgv possible)))"
    by (simp add: parsed_argv_def remove_def Let_def)
  have found: "find_command ''echo'' [?cmd] [] = Matched ?cmd"
    by (simp add: action_def echo_declaration)
  have split1: "split_input ''echo echo hi'' = (''echo'', ''echo hi'')"
    and split2: "split_input ''echo echo'' = (''echo'', ''echo'')"
    by (simp_all add: split_input_def string_ops)
  have lost: "setupCommandParser (plain_host no_result) ?reg quiet_bot (incoming ''!echo echo hi'')
     = \<lparr>outcome = Handled,
        trace = [Handler ''echo'' (handler_argv positional_only ?cmd ''echo hi''),
                 SendMessage (reply (incoming ''!echo echo hi'') ''hi'')]\<rparr>"
    using plain_matched [OF split1 found, of no_result 0 quiet_bot]
    by (simp add: echo_echo_hi)
  have short: "setupCommandParser (plain_host no_result) ?reg quiet_bot (incoming ''!echo echo'')
     = \<lparr>outcome = Handled,
        trace = [SendMessage (quoting (incoming ''!echo echo'') missing_required)]\<rparr>"
    using plain_matched [OF split2 found, of no_result 0 quiet_bot]
    by (simp add: echo_echo_hi)
  from general removal echo_echo_hi(1) lost short show ?thesis
    by (simp only: one_registration simp_thms)
qed

theorem head_removed_from_arguments_witness:
  "split_input ''echo echo hi'' = (''echo'', ''echo hi'')
   \<and> space \<notin> set ''echo''
   \<and> ''echo echo hi'' = ''echo'' @ space # ''echo hi''"
  using head_removed_from_arguments
          [of "''echo echo hi''" "''echo''" "''echo hi''" positional_only
              "action (new_CommandInstance ''echo <text>'' ''Echoes'' ()) echo" "''echo hi''"]
  by (simp add: split_input_def string_ops)

section \<open>The pre-parse hook\<close>








section \<open>The bound parameters and the handler\<close>











end
